theory Spec2Isabelle
  imports Complex_Main "HOL-Library.Log_Nat" "HOL-Library.Multiset"
begin

section \<open>The C++ type float: IEEE 754 binary32\<close>

text \<open>
  The camera angles are C++ \<^verbatim>\<open>float\<close> globals and every literal of \<^verbatim>\<open>main.cpp\<close> carries the
  suffix \<^verbatim>\<open>f\<close>. A finite binary32 value is a rational \<open>m * 2 ^ e\<close> with \<open>\<bar>m\<bar> < 2 ^ 24\<close> and
  \<open>- 149 \<le> e\<close>; an arithmetic result is the exact rational result rounded to the nearest such
  value, ties to the even significand, and a rounded magnitude of \<open>2 ^ 128\<close> or more is an
  infinity. Infinities and NaN are one absorbing value \<open>NonFinite\<close>: a sum or difference with
  a non-finite operand is never finite. The sign of zero is not modelled. The one division
  of the program has two finite constants as operands; for a non-finite operand \<open>fdiv\<close>
  answers \<open>NonFinite\<close>, which does not tell the quotient \<open>0\<close> of a finite value by an
  infinity from a NaN.
\<close>

definition round_half_even :: "rat \<Rightarrow> int" where
  "round_half_even q =
     (let f = \<lfloor>q\<rfloor>; d = q - of_int f
      in if d < 1 / 2 then f else if 1 / 2 < d then f + 1 else if even f then f else f + 1)"

text \<open>
  The distance between neighbouring binary32 values around \<open>x\<close>. In units of \<open>2 ^ - 149\<close>
  (the smallest subnormal) a magnitude with \<open>e\<close> bits before the point lies in the binade
  \<open>[2 ^ (e - 1), 2 ^ e)\<close>, whose values are the multiples of \<open>2 ^ (e - 24)\<close>, and of \<open>1\<close> in
  the subnormal range \<open>e \<le> 24\<close>.
\<close>

definition binary32_spacing :: "rat \<Rightarrow> rat" where
  "binary32_spacing x = 2 ^ nat (bitlen \<lfloor>\<bar>x\<bar> * 2 ^ 149\<rfloor> - 24) / 2 ^ 149"

definition round_binary32 :: "rat \<Rightarrow> rat" where
  "round_binary32 x = of_int (round_half_even (x / binary32_spacing x)) * binary32_spacing x"

datatype float32 = Finite rat | NonFinite

text \<open>A float literal \<^verbatim>\<open>xf\<close>, and the rounding step of every operation.\<close>

definition f32 :: "rat \<Rightarrow> float32" where
  "f32 x = (let r = round_binary32 x in if \<bar>r\<bar> < 2 ^ 128 then Finite r else NonFinite)"

fun fadd :: "float32 \<Rightarrow> float32 \<Rightarrow> float32" where
  "fadd (Finite a) (Finite b) = f32 (a + b)"
| "fadd _ _ = NonFinite"

fun fsub :: "float32 \<Rightarrow> float32 \<Rightarrow> float32" where
  "fsub (Finite a) (Finite b) = f32 (a - b)"
| "fsub _ _ = NonFinite"

fun fdiv :: "float32 \<Rightarrow> float32 \<Rightarrow> float32" where
  "fdiv (Finite a) (Finite b) = (if b = 0 then NonFinite else f32 (a / b))"
| "fdiv _ _ = NonFinite"


section \<open>The windowing and drawing backend, as the program calls it\<close>

text \<open>Key and action codes of \<^verbatim>\<open>GLFW/glfw3.h\<close>; the callback receives them as \<^verbatim>\<open>int\<close>.\<close>

definition GLFW_RELEASE :: int where "GLFW_RELEASE = 0"
definition GLFW_PRESS :: int where "GLFW_PRESS = 1"
definition GLFW_REPEAT :: int where "GLFW_REPEAT = 2"
definition GLFW_KEY_ESCAPE :: int where "GLFW_KEY_ESCAPE = 256"
definition GLFW_KEY_RIGHT :: int where "GLFW_KEY_RIGHT = 262"
definition GLFW_KEY_LEFT :: int where "GLFW_KEY_LEFT = 263"
definition GLFW_KEY_DOWN :: int where "GLFW_KEY_DOWN = 264"
definition GLFW_KEY_UP :: int where "GLFW_KEY_UP = 265"

datatype clear_bit = GL_COLOR_BUFFER_BIT | GL_DEPTH_BUFFER_BIT
datatype primitive = GL_QUADS
datatype capability = GL_DEPTH_TEST
datatype matrix_mode = GL_MODELVIEW | GL_PROJECTION

text \<open>
  The projection matrix is computed by GLM, outside this repository; the program only hands
  it on. It is kept as the expression the program writes.
\<close>

datatype glm_angle = glm_radians float32
datatype glm_mat4 = glm_perspective glm_angle float32 float32 float32

text \<open>
  One constructor for each backend function \<^verbatim>\<open>main.cpp\<close> calls, with the arguments it
  passes. The window handle is left out: there is one window.
\<close>

datatype call =
    glfwInit
  | glfwCreateWindow int int string
  | glfwTerminate
  | glfwMakeContextCurrent
  | glfwSetKeyCallback
  | glfwSetWindowShouldClose bool
  | glfwSwapBuffers
  | glfwPollEvents
  | glEnable capability
  | glMatrixMode matrix_mode
  | glLoadIdentity
  | glLoadMatrixf glm_mat4
  | glClear "clear_bit set"
  | glClearColor float32 float32 float32 float32
  | glTranslatef float32 float32 float32
  | glRotatef float32 float32 float32 float32
  | glBegin primitive
  | glColor3f float32 float32 float32
  | glVertex3f float32 float32 float32
  | glEnd

text \<open>What the backend hands to the program while it polls: a key event, or the user's
  request to close the window, which sets the window's close flag.\<close>

datatype event = KeyEvent int int | WindowClose


section \<open>The program state\<close>

text \<open>
  The two globals of \<^verbatim>\<open>main.cpp\<close>, the close flag of the window (read by
  \<^verbatim>\<open>glfwWindowShouldClose\<close>, written by \<^verbatim>\<open>glfwSetWindowShouldClose\<close>), and the backend calls
  issued so far, oldest first. Reading the close flag is not recorded.
\<close>

record state =
  angleX :: float32
  angleY :: float32
  should_close :: bool
  calls :: "call list"

definition WIDTH :: int where "WIDTH = 800"
definition HEIGHT :: int where "HEIGHT = 600"

definition initial_state :: state where
  "initial_state = \<lparr>angleX = f32 0, angleY = f32 0, should_close = False, calls = []\<rparr>"

definition issue :: "call list \<Rightarrow> state \<Rightarrow> state" where
  "issue cs s = s\<lparr>calls := calls s @ cs\<rparr>"


section \<open>key_callback\<close>

text \<open>The five \<^verbatim>\<open>if\<close> statements of the callback, in order. The scancode and the modifier
  bits are not read.\<close>

definition key_callback :: "int \<Rightarrow> int \<Rightarrow> state \<Rightarrow> state" where
  "key_callback key action s0 =
     (let s1 = (if key = GLFW_KEY_ESCAPE \<and> action = GLFW_PRESS
                then (issue [glfwSetWindowShouldClose True] s0)\<lparr>should_close := True\<rparr>
                else s0);
          s2 = (if key = GLFW_KEY_LEFT \<and> (action = GLFW_PRESS \<or> action = GLFW_REPEAT)
                then s1\<lparr>angleY := fsub (angleY s1) (f32 5)\<rparr> else s1);
          s3 = (if key = GLFW_KEY_RIGHT \<and> (action = GLFW_PRESS \<or> action = GLFW_REPEAT)
                then s2\<lparr>angleY := fadd (angleY s2) (f32 5)\<rparr> else s2);
          s4 = (if key = GLFW_KEY_UP \<and> (action = GLFW_PRESS \<or> action = GLFW_REPEAT)
                then s3\<lparr>angleX := fsub (angleX s3) (f32 5)\<rparr> else s3);
          s5 = (if key = GLFW_KEY_DOWN \<and> (action = GLFW_PRESS \<or> action = GLFW_REPEAT)
                then s4\<lparr>angleX := fadd (angleX s4) (f32 5)\<rparr> else s4)
      in s5)"


section \<open>drawCube\<close>

definition drawCube_calls :: "call list" where
  "drawCube_calls =
    [glBegin GL_QUADS,

     glColor3f (f32 1) (f32 0) (f32 0),
     glVertex3f (f32 (- (1 / 2))) (f32 (- (1 / 2))) (f32 (1 / 2)),
     glVertex3f (f32 (1 / 2)) (f32 (- (1 / 2))) (f32 (1 / 2)),
     glVertex3f (f32 (1 / 2)) (f32 (1 / 2)) (f32 (1 / 2)),
     glVertex3f (f32 (- (1 / 2))) (f32 (1 / 2)) (f32 (1 / 2)),

     glColor3f (f32 0) (f32 1) (f32 0),
     glVertex3f (f32 (- (1 / 2))) (f32 (- (1 / 2))) (f32 (- (1 / 2))),
     glVertex3f (f32 (- (1 / 2))) (f32 (1 / 2)) (f32 (- (1 / 2))),
     glVertex3f (f32 (1 / 2)) (f32 (1 / 2)) (f32 (- (1 / 2))),
     glVertex3f (f32 (1 / 2)) (f32 (- (1 / 2))) (f32 (- (1 / 2))),

     glColor3f (f32 0) (f32 0) (f32 1),
     glVertex3f (f32 (- (1 / 2))) (f32 (1 / 2)) (f32 (- (1 / 2))),
     glVertex3f (f32 (- (1 / 2))) (f32 (1 / 2)) (f32 (1 / 2)),
     glVertex3f (f32 (1 / 2)) (f32 (1 / 2)) (f32 (1 / 2)),
     glVertex3f (f32 (1 / 2)) (f32 (1 / 2)) (f32 (- (1 / 2))),

     glColor3f (f32 1) (f32 1) (f32 0),
     glVertex3f (f32 (- (1 / 2))) (f32 (- (1 / 2))) (f32 (- (1 / 2))),
     glVertex3f (f32 (1 / 2)) (f32 (- (1 / 2))) (f32 (- (1 / 2))),
     glVertex3f (f32 (1 / 2)) (f32 (- (1 / 2))) (f32 (1 / 2)),
     glVertex3f (f32 (- (1 / 2))) (f32 (- (1 / 2))) (f32 (1 / 2)),

     glColor3f (f32 1) (f32 0) (f32 1),
     glVertex3f (f32 (1 / 2)) (f32 (- (1 / 2))) (f32 (- (1 / 2))),
     glVertex3f (f32 (1 / 2)) (f32 (1 / 2)) (f32 (- (1 / 2))),
     glVertex3f (f32 (1 / 2)) (f32 (1 / 2)) (f32 (1 / 2)),
     glVertex3f (f32 (1 / 2)) (f32 (- (1 / 2))) (f32 (1 / 2)),

     glColor3f (f32 0) (f32 1) (f32 1),
     glVertex3f (f32 (- (1 / 2))) (f32 (- (1 / 2))) (f32 (- (1 / 2))),
     glVertex3f (f32 (- (1 / 2))) (f32 (- (1 / 2))) (f32 (1 / 2)),
     glVertex3f (f32 (- (1 / 2))) (f32 (1 / 2)) (f32 (1 / 2)),
     glVertex3f (f32 (- (1 / 2))) (f32 (1 / 2)) (f32 (- (1 / 2))),

     glEnd]"

definition drawCube :: "state \<Rightarrow> state" where
  "drawCube s = issue drawCube_calls s"


section \<open>main\<close>

text \<open>The body of the \<^verbatim>\<open>while\<close> loop up to and including the buffer swap.\<close>

definition render_frame :: "state \<Rightarrow> state" where
  "render_frame s0 =
     (let s1 = issue [glClear {GL_COLOR_BUFFER_BIT, GL_DEPTH_BUFFER_BIT},
                      glClearColor (f32 (1 / 10)) (f32 (1 / 10)) (f32 (15 / 100)) (f32 1),
                      glLoadIdentity,
                      glTranslatef (f32 0) (f32 0) (f32 (- 3)),
                      glRotatef (angleX s0) (f32 1) (f32 0) (f32 0),
                      glRotatef (angleY s0) (f32 0) (f32 1) (f32 0)] s0;
          s2 = drawCube s1;
          s3 = s2\<lparr>angleY := fadd (angleY s2) (f32 (1 / 2))\<rparr>
      in issue [glfwSwapBuffers] s3)"

text \<open>
  \<^verbatim>\<open>glfwPollEvents\<close>: the backend handles the events that are waiting, in the order they
  arrived. A key event runs the registered callback; a close request sets the close flag.
\<close>

fun deliver :: "event \<Rightarrow> state \<Rightarrow> state" where
  "deliver (KeyEvent key action) s = key_callback key action s"
| "deliver WindowClose s = s\<lparr>should_close := True\<rparr>"

definition poll_events :: "event list \<Rightarrow> state \<Rightarrow> state" where
  "poll_events evs s = fold deliver evs (issue [glfwPollEvents] s)"

text \<open>
  The \<^verbatim>\<open>while\<close> loop. The environment is the list of event batches that the successive
  calls of \<^verbatim>\<open>glfwPollEvents\<close> find waiting; each iteration consumes one batch. \<open>Exited\<close>: the
  loop condition was found false. \<open>Running\<close>: the loop condition was found true and the
  batches given are used up, so the loop is about to render its next frame.
\<close>

datatype loop_outcome = Exited state | Running state

fun main_loop :: "event list list \<Rightarrow> state \<Rightarrow> loop_outcome" where
  "main_loop [] s = (if should_close s then Exited s else Running s)"
| "main_loop (evs # rest) s =
     (if should_close s then Exited s
      else main_loop rest (poll_events evs (render_frame s)))"

fun final :: "loop_outcome \<Rightarrow> state" where
  "final (Exited s) = s"
| "final (Running s) = s"

fun exited :: "loop_outcome \<Rightarrow> bool" where
  "exited (Exited s) = True"
| "exited (Running s) = False"

text \<open>
  \<^verbatim>\<open>main\<close>. The two results the backend decides are parameters: whether \<^verbatim>\<open>glfwInit\<close>
  succeeds and whether \<^verbatim>\<open>glfwCreateWindow\<close> returns a window. \<open>Returned c\<close> is
  \<^verbatim>\<open>return c\<close>; \<open>Unfinished\<close> is a run whose loop is still running when the given
  batches are used up.
\<close>

datatype main_outcome = Returned int state | Unfinished state

definition setup_calls :: "call list" where
  "setup_calls =
    [glfwMakeContextCurrent,
     glfwSetKeyCallback,
     glEnable GL_DEPTH_TEST,
     glMatrixMode GL_PROJECTION,
     glLoadIdentity,
     glLoadMatrixf (glm_perspective (glm_radians (f32 45))
        (fdiv (f32 (of_int WIDTH)) (f32 (of_int HEIGHT))) (f32 (1 / 10)) (f32 100)),
     glMatrixMode GL_MODELVIEW]"

definition main :: "bool \<Rightarrow> bool \<Rightarrow> event list list \<Rightarrow> main_outcome" where
  "main init_ok window_ok polls =
     (let s1 = issue [glfwInit] initial_state in
      if \<not> init_ok then Returned (- 1) s1
      else
        let s2 = issue [glfwCreateWindow WIDTH HEIGHT ''Simple 3D Game - Hello World''] s1 in
        if \<not> window_ok then Returned (- 1) (issue [glfwTerminate] s2)
        else
          (case main_loop polls (issue setup_calls s2) of
             Exited s3 \<Rightarrow> Returned 0 (issue [glfwTerminate] s3)
           | Running s3 \<Rightarrow> Unfinished s3))"


section \<open>Observations on runs\<close>

text \<open>How often a key arrived with an action, over all polls of a run, and the net number
  of rotate-right steps: presses and repeats of RIGHT minus presses and repeats of LEFT.\<close>

definition count_key :: "int \<Rightarrow> int \<Rightarrow> event list list \<Rightarrow> nat" where
  "count_key key action polls = count_list (concat polls) (KeyEvent key action)"

definition net_right :: "event list list \<Rightarrow> int" where
  "net_right polls =
     int (count_key GLFW_KEY_RIGHT GLFW_PRESS polls) + int (count_key GLFW_KEY_RIGHT GLFW_REPEAT polls)
     - int (count_key GLFW_KEY_LEFT GLFW_PRESS polls) - int (count_key GLFW_KEY_LEFT GLFW_REPEAT polls)"

text \<open>
  The yaw in half degrees, as the integers would have it: every frame adds \<open>1\<close>, every press
  or repeat of RIGHT adds \<open>10\<close>, of LEFT subtracts \<open>10\<close>. \<open>yaw_steps\<close> lists these steps in
  the order the loop takes them, and \<open>in_exact_range m ds\<close> says that from \<open>m\<close> every value on
  the way stays within \<open>2 ^ 24\<close> half degrees, that is within \<open>8388608\<close> degrees. In that range
  every multiple of one half is a binary32 value.
\<close>

fun yaw_step :: "event \<Rightarrow> int" where
  "yaw_step (KeyEvent key action) =
     (if action = GLFW_PRESS \<or> action = GLFW_REPEAT
      then (if key = GLFW_KEY_RIGHT then 10 else if key = GLFW_KEY_LEFT then - 10 else 0)
      else 0)"
| "yaw_step WindowClose = 0"

definition yaw_steps :: "event list list \<Rightarrow> int list" where
  "yaw_steps polls = concat (map (\<lambda>evs. 1 # map yaw_step evs) polls)"

fun in_exact_range :: "int \<Rightarrow> int list \<Rightarrow> bool" where
  "in_exact_range m [] = (\<bar>m\<bar> \<le> 2 ^ 24)"
| "in_exact_range m (d # ds) = (\<bar>m\<bar> \<le> 2 ^ 24 \<and> in_exact_range (m + d) ds)"

text \<open>A frame has been rendered when its buffers were swapped.\<close>

definition frames_rendered :: "state \<Rightarrow> nat" where
  "frames_rendered s = count_list (calls s) glfwSwapBuffers"

text \<open>A press or repeat of LEFT or RIGHT.\<close>

fun is_rotate_lr :: "event \<Rightarrow> bool" where
  "is_rotate_lr (KeyEvent key action) =
     ((key = GLFW_KEY_LEFT \<or> key = GLFW_KEY_RIGHT) \<and> (action = GLFW_PRESS \<or> action = GLFW_REPEAT))"
| "is_rotate_lr WindowClose = False"

text \<open>What a poll must deliver for the loop to end: a press of ESCAPE, or a close request.\<close>

fun requests_exit :: "event \<Rightarrow> bool" where
  "requests_exit (KeyEvent key action) = (key = GLFW_KEY_ESCAPE \<and> action = GLFW_PRESS)"
| "requests_exit WindowClose = True"

text \<open>The state in which \<^verbatim>\<open>main\<close> reaches the loop, the calls issued between two states of a
  run, and the two parts of the outcome of \<^verbatim>\<open>main\<close>.\<close>

definition loop_entry_state :: state where
  "loop_entry_state =
     issue setup_calls
       (issue [glfwCreateWindow WIDTH HEIGHT ''Simple 3D Game - Hello World'']
          (issue [glfwInit] initial_state))"

definition calls_since :: "state \<Rightarrow> state \<Rightarrow> call list" where
  "calls_since s s' = drop (length (calls s)) (calls s')"

fun state_of :: "main_outcome \<Rightarrow> state" where
  "state_of (Returned c s) = s"
| "state_of (Unfinished s) = s"

fun return_code :: "main_outcome \<Rightarrow> int option" where
  "return_code (Returned c s) = Some c"
| "return_code (Unfinished s) = None"


section \<open>What the drawing calls mean\<close>

text \<open>
  OpenGL and GLFW are not part of the repository. The definitions of this section give the
  calls the meaning that the OpenGL 1.x specification gives them, as far as the properties
  below need it: the clear colour, the matrix mode and the two matrix stacks' top entries,
  the current colour, the assembly of quads between \<^verbatim>\<open>glBegin\<close> and \<^verbatim>\<open>glEnd\<close>, and the list of
  what reached the framebuffer. A matrix is kept as the product the calls built, so that
  the order of the factors can be read off; \<open>matrix_value\<close> below gives its entries.
\<close>

type_synonym rgba = "float32 \<times> float32 \<times> float32 \<times> float32"
type_synonym vec3 = "float32 \<times> float32 \<times> float32"

text \<open>\<open>TimesTranslate m x y z\<close> is \<open>m\<close> multiplied on the right by the translation, and
  \<open>TimesRotate m a x y z\<close> is \<open>m\<close> multiplied on the right by the rotation of \<open>a\<close> degrees
  about \<open>(x, y, z)\<close>: \<^verbatim>\<open>glTranslatef\<close> and \<^verbatim>\<open>glRotatef\<close> replace the current matrix \<open>C\<close> by
  \<open>C \<cdot> T\<close> and \<open>C \<cdot> R\<close>.\<close>

datatype matrix =
    IdentityM
  | LoadedM glm_mat4
  | TimesTranslate matrix float32 float32 float32
  | TimesRotate matrix float32 float32 float32 float32

record vertex =
  position :: vec3
  colour :: vec3

text \<open>What reaches the framebuffer: a clear with the clear colour in force, a quad with the
  modelview and projection matrices in force and its four vertices, a buffer swap.\<close>

datatype drawn =
    Cleared "clear_bit set" rgba
  | Quad matrix matrix "vertex list"
  | Presented

record gl_context =
  clear_colour :: rgba
  depth_test :: bool
  mode :: matrix_mode
  projection :: matrix
  modelview :: matrix
  current_colour :: vec3
  assembling :: "vertex list option"
  effects :: "drawn list"

text \<open>The initial state of a context: clear colour \<open>(0, 0, 0, 0)\<close>, depth test disabled,
  matrix mode \<^verbatim>\<open>GL_MODELVIEW\<close>, identity matrices, current colour white.\<close>

definition gl_initial :: gl_context where
  "gl_initial =
     \<lparr>clear_colour = (Finite 0, Finite 0, Finite 0, Finite 0),
      depth_test = False,
      mode = GL_MODELVIEW,
      projection = IdentityM,
      modelview = IdentityM,
      current_colour = (Finite 1, Finite 1, Finite 1),
      assembling = None,
      effects = []\<rparr>"

text \<open>\<^verbatim>\<open>glClearColor\<close> clamps its arguments to \<open>[0, 1]\<close>.\<close>

fun clamp01 :: "float32 \<Rightarrow> float32" where
  "clamp01 (Finite q) = Finite (max 0 (min 1 q))"
| "clamp01 NonFinite = NonFinite"

definition current_matrix :: "gl_context \<Rightarrow> matrix" where
  "current_matrix g = (case mode g of GL_MODELVIEW \<Rightarrow> modelview g | GL_PROJECTION \<Rightarrow> projection g)"

definition set_current_matrix :: "matrix \<Rightarrow> gl_context \<Rightarrow> gl_context" where
  "set_current_matrix m g =
     (case mode g of GL_MODELVIEW \<Rightarrow> g\<lparr>modelview := m\<rparr> | GL_PROJECTION \<Rightarrow> g\<lparr>projection := m\<rparr>)"

text \<open>
  One call. With \<^verbatim>\<open>GL_QUADS\<close> every fourth vertex completes a quad; a vertex takes the
  current colour. A vertex outside \<^verbatim>\<open>glBegin\<close>/\<^verbatim>\<open>glEnd\<close> has no defined effect and is dropped.
  The GLFW calls other than the buffer swap do not touch the context.
\<close>

fun gl :: "call \<Rightarrow> gl_context \<Rightarrow> gl_context" where
  "gl (glClear bits) g = g\<lparr>effects := effects g @ [Cleared bits (clear_colour g)]\<rparr>"
| "gl (glClearColor r gr b a) g = g\<lparr>clear_colour := (clamp01 r, clamp01 gr, clamp01 b, clamp01 a)\<rparr>"
| "gl (glEnable GL_DEPTH_TEST) g = g\<lparr>depth_test := True\<rparr>"
| "gl (glMatrixMode m) g = g\<lparr>mode := m\<rparr>"
| "gl glLoadIdentity g = set_current_matrix IdentityM g"
| "gl (glLoadMatrixf m) g = set_current_matrix (LoadedM m) g"
| "gl (glTranslatef x y z) g = set_current_matrix (TimesTranslate (current_matrix g) x y z) g"
| "gl (glRotatef a x y z) g = set_current_matrix (TimesRotate (current_matrix g) a x y z) g"
| "gl (glBegin GL_QUADS) g = g\<lparr>assembling := Some []\<rparr>"
| "gl (glColor3f r gr b) g = g\<lparr>current_colour := (r, gr, b)\<rparr>"
| "gl (glVertex3f x y z) g =
     (case assembling g of
        None \<Rightarrow> g
      | Some vs \<Rightarrow>
          (let vs' = vs @ [\<lparr>position = (x, y, z), colour = current_colour g\<rparr>]
           in if length vs' = 4
              then g\<lparr>assembling := Some [],
                     effects := effects g @ [Quad (modelview g) (projection g) vs']\<rparr>
              else g\<lparr>assembling := Some vs'\<rparr>))"
| "gl glEnd g = g\<lparr>assembling := None\<rparr>"
| "gl glfwSwapBuffers g = g\<lparr>effects := effects g @ [Presented]\<rparr>"
| "gl _ g = g"

definition gl_run :: "call list \<Rightarrow> gl_context \<Rightarrow> gl_context" where
  "gl_run cs g = fold gl cs g"

text \<open>What a list of calls adds to the framebuffer log of a context.\<close>

definition drawn_by :: "call list \<Rightarrow> gl_context \<Rightarrow> drawn list" where
  "drawn_by cs g = drop (length (effects g)) (effects (gl_run cs g))"

text \<open>The entries of a matrix, over the reals; rows first. Angles are in degrees and the
  axis of a rotation is normalised, as \<^verbatim>\<open>glRotatef\<close> does; \<open>perspective\<close> is GLM's
  right-handed projection to the depth range \<open>[- 1, 1]\<close>. A matrix built from a non-finite
  float, or a rotation about the zero vector, has no value here.\<close>

type_synonym mat4 = "real list list"

definition identity4 :: mat4 where
  "identity4 = [[1, 0, 0, 0], [0, 1, 0, 0], [0, 0, 1, 0], [0, 0, 0, 1]]"

definition translation :: "real \<Rightarrow> real \<Rightarrow> real \<Rightarrow> mat4" where
  "translation x y z = [[1, 0, 0, x], [0, 1, 0, y], [0, 0, 1, z], [0, 0, 0, 1]]"

definition rotation :: "real \<Rightarrow> real \<Rightarrow> real \<Rightarrow> real \<Rightarrow> mat4" where
  "rotation a x0 y0 z0 =
     (let n = sqrt (x0 * x0 + y0 * y0 + z0 * z0);
          x = x0 / n; y = y0 / n; z = z0 / n;
          c = cos (a * pi / 180); s = sin (a * pi / 180)
      in [[x * x * (1 - c) + c, x * y * (1 - c) - z * s, x * z * (1 - c) + y * s, 0],
          [y * x * (1 - c) + z * s, y * y * (1 - c) + c, y * z * (1 - c) - x * s, 0],
          [x * z * (1 - c) - y * s, y * z * (1 - c) + x * s, z * z * (1 - c) + c, 0],
          [0, 0, 0, 1]])"

definition perspective :: "real \<Rightarrow> real \<Rightarrow> real \<Rightarrow> real \<Rightarrow> mat4" where
  "perspective fovy aspect near far =
     (let t = tan (fovy / 2)
      in [[1 / (aspect * t), 0, 0, 0],
          [0, 1 / t, 0, 0],
          [0, 0, - (far + near) / (far - near), - (2 * far * near) / (far - near)],
          [0, 0, - 1, 0]])"

definition mat_mul :: "mat4 \<Rightarrow> mat4 \<Rightarrow> mat4" where
  "mat_mul A B = map (\<lambda>row. map (\<lambda>col. sum_list (map2 (*) row col)) (transpose B)) A"

fun real_of :: "float32 \<Rightarrow> real option" where
  "real_of (Finite q) = Some (of_rat q)"
| "real_of NonFinite = None"

fun matrix_value :: "matrix \<Rightarrow> mat4 option" where
  "matrix_value IdentityM = Some identity4"
| "matrix_value (LoadedM (glm_perspective (glm_radians fovy) aspect near far)) =
     (case (real_of fovy, real_of aspect, real_of near, real_of far) of
        (Some d, Some a, Some n, Some f) \<Rightarrow>
          if a = 0 \<or> tan (d * pi / 180 / 2) = 0 \<or> f = n then None
          else Some (perspective (d * pi / 180) a n f)
      | _ \<Rightarrow> None)"
| "matrix_value (TimesTranslate m x y z) =
     (case (matrix_value m, real_of x, real_of y, real_of z) of
        (Some M, Some x', Some y', Some z') \<Rightarrow> Some (mat_mul M (translation x' y' z'))
      | _ \<Rightarrow> None)"
| "matrix_value (TimesRotate m a x y z) =
     (case (matrix_value m, real_of a, real_of x, real_of y, real_of z) of
        (Some M, Some a', Some x', Some y', Some z') \<Rightarrow>
          if x' = 0 \<and> y' = 0 \<and> z' = 0 then None
          else Some (mat_mul M (rotation a' x' y' z'))
      | _ \<Rightarrow> None)"


section \<open>Observations on what was drawn\<close>

fun quads :: "drawn list \<Rightarrow> vertex list list" where
  "quads [] = []"
| "quads (Quad mv pr vs # ds) = vs # quads ds"
| "quads (_ # ds) = quads ds"

fun quad_modelviews :: "drawn list \<Rightarrow> matrix list" where
  "quad_modelviews [] = []"
| "quad_modelviews (Quad mv pr vs # ds) = mv # quad_modelviews ds"
| "quad_modelviews (_ # ds) = quad_modelviews ds"

fun clears :: "drawn list \<Rightarrow> rgba list" where
  "clears [] = []"
| "clears (Cleared bits c # ds) = c # clears ds"
| "clears (_ # ds) = clears ds"

fun sets_matrix_mode :: "call \<Rightarrow> bool" where
  "sets_matrix_mode (glMatrixMode m) = True"
| "sets_matrix_mode _ = False"

text \<open>The view transform as the specification words it: the identity, then the translation
  by \<open>(0, 0, - 3)\<close>, then the rotation by the pitch about the X axis, then the rotation by
  the yaw about the Y axis.\<close>

definition view_matrix :: "float32 \<Rightarrow> float32 \<Rightarrow> matrix" where
  "view_matrix pitch yaw =
     TimesRotate
       (TimesRotate (TimesTranslate IdentityM (Finite 0) (Finite 0) (Finite (- 3)))
          pitch (Finite 1) (Finite 0) (Finite 0))
       yaw (Finite 0) (Finite 1) (Finite 0)"

text \<open>The value that all elements of a list share under \<open>f\<close>, if they do.\<close>

fun common :: "('a \<Rightarrow> 'b) \<Rightarrow> 'a list \<Rightarrow> 'b option" where
  "common f [] = None"
| "common f (v # vs) = (if list_all (\<lambda>w. f w = f v) vs then Some (f v) else None)"

text \<open>The axes on which all vertices of a face have the same coordinate, with that
  coordinate: a face that lies in exactly one axis-aligned plane has exactly one.\<close>

datatype axis = X_axis | Y_axis | Z_axis

fun coordinate :: "axis \<Rightarrow> vec3 \<Rightarrow> float32" where
  "coordinate X_axis (x, y, z) = x"
| "coordinate Y_axis (x, y, z) = y"
| "coordinate Z_axis (x, y, z) = z"

definition plane_of :: "vertex list \<Rightarrow> (axis \<times> float32) list" where
  "plane_of vs =
     concat (map (\<lambda>a. case common (\<lambda>v. coordinate a (position v)) vs of
                          None \<Rightarrow> [] | Some c \<Rightarrow> [(a, c)])
                 [X_axis, Y_axis, Z_axis])"

text \<open>The six faces of the cube by the plane they lie in: front is \<open>z = 1 / 2\<close>, back is
  \<open>z = - 1 / 2\<close>, top and bottom are \<open>y = \<plusminus> 1 / 2\<close>, right and left are \<open>x = \<plusminus> 1 / 2\<close>.\<close>

datatype side = Front | Back | Top | Bottom | Right_side | Left_side

definition side_of :: "vertex list \<Rightarrow> side option" where
  "side_of vs =
     (if plane_of vs = [(Z_axis, Finite (1 / 2))] then Some Front
      else if plane_of vs = [(Z_axis, Finite (- (1 / 2)))] then Some Back
      else if plane_of vs = [(Y_axis, Finite (1 / 2))] then Some Top
      else if plane_of vs = [(Y_axis, Finite (- (1 / 2)))] then Some Bottom
      else if plane_of vs = [(X_axis, Finite (1 / 2))] then Some Right_side
      else if plane_of vs = [(X_axis, Finite (- (1 / 2)))] then Some Left_side
      else None)"

text \<open>For each colour call, the number of vertex calls that follow it directly.\<close>

fun is_vertex_call :: "call \<Rightarrow> bool" where
  "is_vertex_call (glVertex3f x y z) = True"
| "is_vertex_call _ = False"

fun vertices_per_colour :: "call list \<Rightarrow> nat list" where
  "vertices_per_colour [] = []"
| "vertices_per_colour (glColor3f r g b # cs) =
     length (takeWhile is_vertex_call cs) # vertices_per_colour cs"
| "vertices_per_colour (c # cs) = vertices_per_colour cs"

text \<open>The positions passed to the vertex calls of a list of calls, in order.\<close>

fun emitted_vertices :: "call list \<Rightarrow> vec3 list" where
  "emitted_vertices [] = []"
| "emitted_vertices (glVertex3f x y z # cs) = (x, y, z) # emitted_vertices cs"
| "emitted_vertices (c # cs) = emitted_vertices cs"

fun half_unit :: "float32 \<Rightarrow> bool" where
  "half_unit (Finite q) = (q = 1 / 2 \<or> q = - (1 / 2))"
| "half_unit NonFinite = False"

fun cube_corner :: "vec3 \<Rightarrow> bool" where
  "cube_corner (x, y, z) = (half_unit x \<and> half_unit y \<and> half_unit z)"


section \<open>Facts about binary32 rounding\<close>

lemma round_half_even_of_int: "round_half_even (of_int k) = k"
  by (simp add: round_half_even_def)

lemma round_binary32_fixed:
  assumes "x / binary32_spacing x = of_int k"
  shows "round_binary32 x = x"
proof -
  have pos: "binary32_spacing x \<noteq> 0"
    by (simp add: binary32_spacing_def)
  have "round_binary32 x = of_int k * binary32_spacing x"
    by (simp add: round_binary32_def assms round_half_even_of_int)
  also have "\<dots> = x"
    using assms pos by (simp add: field_simps)
  finally show ?thesis .
qed

lemma spacing_half_int:
  assumes "m \<noteq> 0"
  shows "binary32_spacing (of_int m / 2) = 2 ^ nat (bitlen \<bar>m\<bar> + 124) / 2 ^ 149"
proof -
  have "\<bar>rat_of_int m / 2\<bar> * 2 ^ 149 = of_int (\<bar>m\<bar> * 2 ^ 148)"
    by (simp add: abs_mult)
  then have "\<lfloor>\<bar>rat_of_int m / 2\<bar> * 2 ^ 149\<rfloor> = \<bar>m\<bar> * 2 ^ 148"
    by (metis floor_of_int)
  moreover have "bitlen (\<bar>m\<bar> * 2 ^ 148) = bitlen \<bar>m\<bar> + 148"
    using bitlen_pow2 [of "\<bar>m\<bar>" 148] assms by simp
  ultimately show ?thesis
    by (simp only: binary32_spacing_def) simp
qed

text \<open>Every multiple of one half up to \<open>2 ^ 23\<close> in magnitude is a binary32 value.\<close>

lemma round_binary32_half_int:
  assumes "\<bar>m\<bar> \<le> 2 ^ 24"
  shows "round_binary32 (of_int m / 2) = of_int m / 2"
proof (cases "m = 0")
  case True
  then show ?thesis
    by (simp add: round_binary32_def round_half_even_def)
next
  case False
  let ?b = "bitlen \<bar>m\<bar>"
  have apos: "0 < \<bar>m\<bar>" using False by simp
  have b1: "1 \<le> ?b" using apos by (simp add: bitlen_alt_def)
  have sp: "binary32_spacing (of_int m / 2) = 2 ^ nat (?b + 124) / 2 ^ 149"
    by (rule spacing_half_int [OF False])
  show ?thesis
  proof (cases "?b \<le> 24")
    case True
    have "nat (?b + 124) + nat (24 - ?b) = 148"
      using b1 True by simp
    then have "(2::rat) ^ 148 = 2 ^ nat (?b + 124) * 2 ^ nat (24 - ?b)"
      by (metis power_add)
    then have "(of_int m / 2) / binary32_spacing (of_int m / 2) = of_int (m * 2 ^ nat (24 - ?b))"
      by (simp add: sp field_simps)
    then show ?thesis by (rule round_binary32_fixed)
  next
    case False
    have lo: "2 ^ nat (?b - 1) \<le> \<bar>m\<bar>" using bitlen_bounds [OF apos] by simp
    have "24 \<le> nat (?b - 1)" using False by simp
    then have "(2::int) ^ 24 \<le> 2 ^ nat (?b - 1)"
      by (rule power_increasing) simp
    with lo assms have eq: "\<bar>m\<bar> = 2 ^ 24" by linarith
    then have b25: "?b = 25"
      using bitlen_pow2 [of 1 24] by (simp add: bitlen_alt_def)
    from eq have "m = 2 ^ 24 \<or> m = - (2 ^ 24)" by linarith
    then have "(of_int m / 2) / binary32_spacing (of_int m / 2) = of_int (m div 2)"
      by (auto simp add: sp b25)
    then show ?thesis by (rule round_binary32_fixed)
  qed
qed

lemma f32_half_int:
  assumes "\<bar>m\<bar> \<le> 2 ^ 24"
  shows "f32 (of_int m / 2) = Finite (of_int m / 2)"
proof -
  have "\<bar>rat_of_int m\<bar> \<le> of_int (2 ^ 24)"
    using assms by (metis of_int_abs of_int_le_iff)
  then have "\<bar>rat_of_int m / 2\<bar> \<le> 2 ^ 24"
    by simp
  then have "\<bar>rat_of_int m / 2\<bar> < 2 ^ 128"
    by (rule le_less_trans) simp
  then show ?thesis
    by (simp add: f32_def round_binary32_half_int [OF assms])
qed

text \<open>The literals of the program that are binary32 values, and the two that are not.\<close>

lemma f32_0: "f32 0 = Finite 0"
  using f32_half_int [of 0] by simp

lemma f32_1: "f32 1 = Finite 1"
  using f32_half_int [of 2] by simp

lemma f32_half: "f32 (1 / 2) = Finite (1 / 2)"
  using f32_half_int [of 1] by simp

lemma f32_minus_half: "f32 (- (1 / 2)) = Finite (- (1 / 2))"
  using f32_half_int [of "- 1"] by simp

lemma f32_5: "f32 5 = Finite 5"
  using f32_half_int [of 10] by simp

lemma f32_minus_3: "f32 (- 3) = Finite (- 3)"
  using f32_half_int [of "- 6"] by simp

lemma f32_tenth: "f32 (1 / 10) = Finite (13421773 / 134217728)"
  by code_simp

lemma f32_15_hundredths: "f32 (3 / 20) = Finite (5033165 / 33554432)"
  by code_simp

lemmas f32_literals = f32_0 f32_1 f32_half f32_minus_half f32_5 f32_minus_3


section \<open>Camera angles along a run\<close>

lemmas glfw_codes = GLFW_RELEASE_def GLFW_PRESS_def GLFW_REPEAT_def GLFW_KEY_ESCAPE_def
  GLFW_KEY_RIGHT_def GLFW_KEY_LEFT_def GLFW_KEY_DOWN_def GLFW_KEY_UP_def

lemma fadd_half_int:
  assumes "\<bar>m + k\<bar> \<le> 2 ^ 24"
  shows "fadd (Finite (of_int m / 2)) (Finite (of_int k / 2)) = Finite (of_int (m + k) / 2)"
proof -
  have "rat_of_int m / 2 + of_int k / 2 = of_int (m + k) / 2"
    by (simp add: add_divide_distrib)
  then have "fadd (Finite (of_int m / 2)) (Finite (of_int k / 2)) = f32 (of_int (m + k) / 2)"
    by (simp only: fadd.simps)
  then show ?thesis
    by (simp only: f32_half_int [OF assms])
qed

lemma fsub_half_int:
  assumes "\<bar>m - k\<bar> \<le> 2 ^ 24"
  shows "fsub (Finite (of_int m / 2)) (Finite (of_int k / 2)) = Finite (of_int (m - k) / 2)"
proof -
  have "rat_of_int m / 2 - of_int k / 2 = of_int (m - k) / 2"
    by (simp add: diff_divide_distrib)
  then have "fsub (Finite (of_int m / 2)) (Finite (of_int k / 2)) = f32 (of_int (m - k) / 2)"
    by (simp only: fsub.simps)
  then show ?thesis
    by (simp only: f32_half_int [OF assms])
qed

lemma fadd_5:
  assumes "\<bar>m + 10\<bar> \<le> 2 ^ 24"
  shows "fadd (Finite (of_int m / 2)) (f32 5) = Finite (of_int (m + 10) / 2)"
  using fadd_half_int [of m 10] assms by (simp add: f32_5)

lemma fsub_5:
  assumes "\<bar>m - 10\<bar> \<le> 2 ^ 24"
  shows "fsub (Finite (of_int m / 2)) (f32 5) = Finite (of_int (m - 10) / 2)"
  using fsub_half_int [of m 10] assms by (simp add: f32_5)

lemma fadd_half:
  assumes "\<bar>m + 1\<bar> \<le> 2 ^ 24"
  shows "fadd (Finite (of_int m / 2)) (f32 (1 / 2)) = Finite (of_int (m + 1) / 2)"
  using fadd_half_int [of m 1] assms by (simp add: f32_half)

lemma render_frame_fields:
  "angleX (render_frame s) = angleX s"
  "angleY (render_frame s) = fadd (angleY s) (f32 (1 / 2))"
  "should_close (render_frame s) = should_close s"
  by (simp_all add: render_frame_def drawCube_def issue_def Let_def)

lemma issue_fields:
  "angleX (issue cs s) = angleX s"
  "angleY (issue cs s) = angleY s"
  "should_close (issue cs s) = should_close s"
  by (simp_all add: issue_def)

lemma key_callback_lr:
  assumes "is_rotate_lr (KeyEvent key action)"
  shows "angleX (key_callback key action s) = angleX s"
    and "should_close (key_callback key action s) = should_close s"
    and "angleY (key_callback key action s) =
          (if key = GLFW_KEY_LEFT then fsub (angleY s) (f32 5) else fadd (angleY s) (f32 5))"
  using assms by (auto simp add: key_callback_def glfw_codes Let_def)


lemma net_right_Cons: "net_right (evs # polls) = net_right [evs] + net_right polls"
  by (simp add: net_right_def count_key_def)

lemma net_right_Nil: "net_right [] = 0" "net_right [[]] = 0"
  by (simp_all add: net_right_def count_key_def)

lemma net_right_event: "net_right [e # evs] = net_right [[e]] + net_right [evs]"
  by (simp add: net_right_def count_key_def)

lemma in_exact_range_start: "in_exact_range m ds \<Longrightarrow> \<bar>m\<bar> \<le> 2 ^ 24"
  by (cases ds) simp_all

lemma in_exact_range_append:
  "in_exact_range m (xs @ ys) = (in_exact_range m xs \<and> in_exact_range (m + sum_list xs) ys)"
proof (induction xs arbitrary: m)
  case Nil
  then show ?case by (auto dest: in_exact_range_start)
next
  case (Cons d xs)
  then show ?case by (simp add: add.assoc)
qed

lemma in_exact_range_bound:
  assumes "\<bar>m\<bar> + sum_list (map abs ds) \<le> 2 ^ 24"
  shows "in_exact_range m ds"
  using assms
proof (induction ds arbitrary: m)
  case Nil
  then show ?case by simp
next
  case (Cons d ds)
  have "\<bar>m + d\<bar> + sum_list (map abs ds) \<le> 2 ^ 24"
    using Cons.prems by simp
  then have "in_exact_range (m + d) ds"
    by (rule Cons.IH)
  moreover have "0 \<le> sum_list (map abs ds)"
    by (rule sum_list_nonneg) auto
  then have "\<bar>m\<bar> \<le> 2 ^ 24"
    using Cons.prems by simp
  ultimately show ?case by simp
qed

lemma yaw_step_lr:
  assumes "is_rotate_lr (KeyEvent key action)"
  shows "yaw_step (KeyEvent key action) = (if key = GLFW_KEY_LEFT then - 10 else 10)"
  using assms by (auto simp add: glfw_codes)

lemma deliver_exact:
  assumes "is_rotate_lr e" and "angleY s = Finite (of_int m / 2)"
    and "\<bar>m + yaw_step e\<bar> \<le> 2 ^ 24"
  shows "angleY (deliver e s) = Finite (of_int (m + yaw_step e) / 2)"
    and "angleX (deliver e s) = angleX s"
    and "should_close (deliver e s) = should_close s"
proof -
  obtain key action where e: "e = KeyEvent key action"
    using assms(1) by (cases e) simp_all
  have lr: "is_rotate_lr (KeyEvent key action)"
    using assms(1) e by simp
  show "angleX (deliver e s) = angleX s" "should_close (deliver e s) = should_close s"
    by (simp_all add: e key_callback_lr [OF lr])
  have d: "yaw_step e = (if key = GLFW_KEY_LEFT then - 10 else 10)"
    unfolding e by (rule yaw_step_lr [OF lr])
  have y: "angleY (deliver e s) =
      (if key = GLFW_KEY_LEFT then fsub (Finite (of_int m / 2)) (f32 5)
       else fadd (Finite (of_int m / 2)) (f32 5))"
    by (simp add: e key_callback_lr [OF lr] assms(2))
  show "angleY (deliver e s) = Finite (of_int (m + yaw_step e) / 2)"
  proof (cases "key = GLFW_KEY_LEFT")
    case True
    have "\<bar>m - 10\<bar> \<le> 2 ^ 24" using assms(3) d True by simp
    then have "fsub (Finite (of_int m / 2)) (f32 5) = Finite (of_int (m - 10) / 2)"
      by (rule fsub_5)
    moreover have "m - 10 = m + yaw_step e"
      using True d by simp
    ultimately show ?thesis
      using True y by simp
  next
    case False
    have "\<bar>m + 10\<bar> \<le> 2 ^ 24" using assms(3) d False by simp
    then have "fadd (Finite (of_int m / 2)) (f32 5) = Finite (of_int (m + 10) / 2)"
      by (rule fadd_5)
    moreover have "m + 10 = m + yaw_step e"
      using False d by simp
    ultimately show ?thesis
      using False y by simp
  qed
qed

lemma fold_deliver_exact:
  assumes "list_all is_rotate_lr evs" and "angleY s = Finite (of_int m / 2)"
    and "in_exact_range m (map yaw_step evs)"
  shows "angleY (fold deliver evs s) = Finite (of_int (m + sum_list (map yaw_step evs)) / 2)
       \<and> angleX (fold deliver evs s) = angleX s
       \<and> should_close (fold deliver evs s) = should_close s"
  using assms
proof (induction evs arbitrary: s m)
  case Nil
  then show ?case by simp
next
  case (Cons e evs)
  have e: "is_rotate_lr e" and rest: "list_all is_rotate_lr evs"
    using Cons.prems(1) by simp_all
  have r: "in_exact_range (m + yaw_step e) (map yaw_step evs)"
    using Cons.prems(3) by simp
  then have b: "\<bar>m + yaw_step e\<bar> \<le> 2 ^ 24"
    by (rule in_exact_range_start)
  note step = deliver_exact [OF e Cons.prems(2) b]
  have ih: "angleY (fold deliver evs (deliver e s))
          = Finite (of_int (m + yaw_step e + sum_list (map yaw_step evs)) / 2)
       \<and> angleX (fold deliver evs (deliver e s)) = angleX (deliver e s)
       \<and> should_close (fold deliver evs (deliver e s)) = should_close (deliver e s)"
    by (rule Cons.IH [OF rest step(1) r])
  have "m + yaw_step e + sum_list (map yaw_step evs) = m + sum_list (map yaw_step (e # evs))"
    by simp
  then show ?case
    using ih step(2,3) by simp
qed

lemma loop_body_exact:
  assumes "list_all is_rotate_lr evs" and "angleY s = Finite (of_int m / 2)"
    and "in_exact_range m (1 # map yaw_step evs)"
  shows "angleY (poll_events evs (render_frame s))
          = Finite (of_int (m + sum_list (1 # map yaw_step evs)) / 2)
       \<and> angleX (poll_events evs (render_frame s)) = angleX s
       \<and> should_close (poll_events evs (render_frame s)) = should_close s"
proof -
  let ?s = "issue [glfwPollEvents] (render_frame s)"
  have r: "in_exact_range (m + 1) (map yaw_step evs)"
    using assms(3) by simp
  then have "\<bar>m + 1\<bar> \<le> 2 ^ 24"
    by (rule in_exact_range_start)
  then have y: "angleY ?s = Finite (of_int (m + 1) / 2)"
    by (simp add: issue_fields render_frame_fields assms(2) fadd_half)
  have "m + 1 + sum_list (map yaw_step evs) = m + sum_list (1 # map yaw_step evs)"
    by simp
  then show ?thesis
    using fold_deliver_exact [OF assms(1) y r]
    by (simp add: poll_events_def issue_fields render_frame_fields)
qed

lemma main_loop_exact:
  assumes "\<not> should_close s" and "angleY s = Finite (of_int m / 2)"
    and "list_all is_rotate_lr (concat polls)"
    and "in_exact_range m (yaw_steps polls)"
  shows "\<not> exited (main_loop polls s)
       \<and> angleY (final (main_loop polls s)) = Finite (of_int (m + sum_list (yaw_steps polls)) / 2)
       \<and> angleX (final (main_loop polls s)) = angleX s"
  using assms
proof (induction polls arbitrary: s m)
  case Nil
  then show ?case by (simp add: yaw_steps_def)
next
  case (Cons evs polls)
  let ?s = "poll_events evs (render_frame s)"
  let ?d = "sum_list (1 # map yaw_step evs)"
  have evs: "list_all is_rotate_lr evs" and rest: "list_all is_rotate_lr (concat polls)"
    using Cons.prems(3) by simp_all
  have split: "yaw_steps (evs # polls) = (1 # map yaw_step evs) @ yaw_steps polls"
    by (simp add: yaw_steps_def)
  have r1: "in_exact_range m (1 # map yaw_step evs)"
    and r2: "in_exact_range (m + ?d) (yaw_steps polls)"
    using Cons.prems(4) unfolding split in_exact_range_append by blast+
  note body = loop_body_exact [OF evs Cons.prems(2) r1]
  have open': "\<not> should_close ?s"
    using body Cons.prems(1) by simp
  have y: "angleY ?s = Finite (of_int (m + ?d) / 2)"
    using body by blast
  have ih: "\<not> exited (main_loop polls ?s)
       \<and> angleY (final (main_loop polls ?s))
           = Finite (of_int (m + ?d + sum_list (yaw_steps polls)) / 2)
       \<and> angleX (final (main_loop polls ?s)) = angleX ?s"
    by (rule Cons.IH [OF open' y rest r2])
  have "main_loop (evs # polls) s = main_loop polls ?s"
    using Cons.prems(1) by simp
  moreover have "m + ?d + sum_list (yaw_steps polls) = m + sum_list (yaw_steps (evs # polls))"
    unfolding split by simp
  ultimately show ?case
    using ih body by simp
qed

lemma sum_yaw_step: "sum_list (map yaw_step evs) = 10 * net_right [evs]"
proof (induction evs)
  case Nil
  then show ?case by (simp add: net_right_Nil)
next
  case (Cons e evs)
  have "yaw_step e = 10 * net_right [[e]]"
    by (cases e) (auto simp add: net_right_def count_key_def glfw_codes)
  then show ?case
    using Cons.IH by (simp add: net_right_event [of e evs])
qed

lemma sum_yaw_steps: "sum_list (yaw_steps polls) = 10 * net_right polls + int (length polls)"
proof (induction polls)
  case Nil
  then show ?case by (simp add: yaw_steps_def net_right_Nil)
next
  case (Cons evs polls)
  have "yaw_steps (evs # polls) = (1 # map yaw_step evs) @ yaw_steps polls"
    by (simp add: yaw_steps_def)
  then show ?case
    using Cons.IH by (simp add: sum_yaw_step net_right_Cons [of evs polls])
qed

lemma main_loop_append:
  "main_loop (xs @ ys) s =
     (case main_loop xs s of Exited s' \<Rightarrow> Exited s' | Running s' \<Rightarrow> main_loop ys s')"
proof (induction xs arbitrary: s)
  case Nil
  then show ?case by (cases ys) simp_all
next
  case (Cons evs xs)
  then show ?case by simp
qed

lemma exited_iff_should_close:
  "exited (main_loop polls s) = should_close (final (main_loop polls s))"
  by (induction polls arbitrary: s) simp_all

lemma main_loop_append_running:
  assumes "\<not> exited (main_loop xs s)"
  shows "main_loop (xs @ ys) s = main_loop ys (final (main_loop xs s))"
  using assms by (cases "main_loop xs s") (simp_all add: main_loop_append)

lemma f32_saturated: "f32 (16777217 / 2) = Finite 8388608"
  by code_simp

lemma frames_saturated:
  assumes "\<not> should_close s" and "angleY s = Finite 8388608"
  shows "\<not> exited (main_loop (replicate n []) s)
       \<and> angleY (final (main_loop (replicate n []) s)) = Finite 8388608"
  using assms
proof (induction n arbitrary: s)
  case 0
  then show ?case by simp
next
  case (Suc n)
  let ?s = "poll_events [] (render_frame s)"
  have "\<not> should_close ?s"
    using Suc.prems(1) by (simp add: poll_events_def issue_fields render_frame_fields)
  moreover have "angleY ?s = Finite 8388608"
    using Suc.prems(2)
    by (simp add: poll_events_def issue_fields render_frame_fields f32_half f32_saturated)
  ultimately have "\<not> exited (main_loop (replicate n []) ?s)
       \<and> angleY (final (main_loop (replicate n []) ?s)) = Finite 8388608"
    by (rule Suc.IH)
  then show ?case
    using Suc.prems(1) by simp
qed

lemma initial_fields:
  "angleX initial_state = Finite 0" "angleY initial_state = Finite 0"
  "\<not> should_close initial_state" "calls initial_state = []"
  by (simp_all add: initial_state_def f32_0)

lemma net_right_replicate: "net_right (replicate n []) = 0"
  by (simp add: net_right_def count_key_def)

lemma yaw_steps_replicate: "yaw_steps (replicate n []) = replicate n 1"
  by (induction n) (simp_all add: yaw_steps_def)

lemma frames_exact:
  assumes "\<not> should_close s" and "angleY s = Finite (of_int m / 2)"
    and "\<bar>m\<bar> + int n \<le> 2 ^ 24"
  shows "\<not> exited (main_loop (replicate n []) s)"
    and "angleY (final (main_loop (replicate n []) s)) = Finite (of_int (m + int n) / 2)"
    and "angleX (final (main_loop (replicate n []) s)) = angleX s"
proof -
  have 1: "list_all is_rotate_lr (concat (replicate n []))"
    by (simp add: list_all_iff)
  have "sum_list (map abs (replicate n (1::int))) = int n"
    by (induction n) simp_all
  then have "in_exact_range m (replicate n 1)"
    using assms(3) by (intro in_exact_range_bound) simp
  then have 2: "in_exact_range m (yaw_steps (replicate n []))"
    by (simp only: yaw_steps_replicate)
  note main_loop_exact [OF assms(1,2) 1 2]
  then show "\<not> exited (main_loop (replicate n []) s)"
    and "angleY (final (main_loop (replicate n []) s)) = Finite (of_int (m + int n) / 2)"
    and "angleX (final (main_loop (replicate n []) s)) = angleX s"
    by (simp_all add: sum_yaw_steps net_right_replicate)
qed

text \<open>
  Claim C2, amended. From the initial state, \<open>N\<close> iterations of the render loop with no
  input, for \<open>N\<close> up to \<open>2 ^ 24 = 16777216\<close>: the loop is still running, yaw is exactly
  \<open>N / 2\<close> and pitch is \<open>0\<close>. (Beyond that bound the float sum \<open>8388608 + 0.5\<close> rounds
  back to \<open>8388608\<close>, see the counterexample.)
\<close>

theorem yaw_after_idle_frames:
  assumes "N \<le> 2 ^ 24"
  shows "\<not> exited (main_loop (replicate N []) initial_state)
       \<and> angleY (final (main_loop (replicate N []) initial_state)) = Finite (of_nat N / 2)
       \<and> angleX (final (main_loop (replicate N []) initial_state)) = Finite 0"
proof -
  have 0: "angleY initial_state = Finite (of_int 0 / 2)"
    by (simp add: initial_fields)
  have b: "\<bar>0\<bar> + int N \<le> 2 ^ 24"
    using assms by simp
  note frames_exact [OF initial_fields(3) 0 b]
  then show ?thesis
    by (simp add: initial_fields)
qed

theorem yaw_after_idle_frames_witness:
  "(3::nat) \<le> 2 ^ 24
   \<and> \<not> exited (main_loop (replicate 3 []) initial_state)
   \<and> angleY (final (main_loop (replicate 3 []) initial_state)) = Finite (3 / 2)
   \<and> angleX (final (main_loop (replicate 3 []) initial_state)) = Finite 0"
  using yaw_after_idle_frames [of 3] by simp

text \<open>After \<open>2 ^ 24\<close> idle frames the yaw is \<open>8388608\<close>, and one more frame leaves it there.\<close>

theorem yaw_idle_frames_counterexample:
  "angleY (final (main_loop (replicate 16777217 []) initial_state)) = Finite 8388608
   \<and> angleY (final (main_loop (replicate 16777217 []) initial_state)) \<noteq> Finite (16777217 / 2)"
proof -
  let ?r = "main_loop (replicate 16777216 []) initial_state"
  have 0: "angleY initial_state = Finite (of_int 0 / 2)"
    by (simp add: initial_fields)
  have b: "\<bar>0\<bar> + int 16777216 \<le> 2 ^ 24"
    by simp
  note a = frames_exact [OF initial_fields(3) 0 b]
  have y: "angleY (final ?r) = Finite 8388608"
    using a(2) by simp
  have c: "\<not> should_close (final ?r)"
    using a(1) by (simp add: exited_iff_should_close)
  have "replicate (16777216 + 1) [] = replicate 16777216 [] @ replicate 1 ([]::event list)"
    by (rule replicate_add)
  moreover have "(16777216::nat) + 1 = 16777217"
    by simp
  ultimately have "replicate 16777217 [] = replicate 16777216 [] @ replicate 1 ([]::event list)"
    by (simp only:)
  then have "main_loop (replicate 16777217 []) initial_state = main_loop (replicate 1 []) (final ?r)"
    using main_loop_append_running [OF a(1)] by simp
  then have "angleY (final (main_loop (replicate 16777217 []) initial_state)) = Finite 8388608"
    using frames_saturated [OF c y, of 1] by simp
  then show ?thesis
    by simp
qed


lemma frames_rendered_issue:
  "frames_rendered (issue cs s) = frames_rendered s + count_list cs glfwSwapBuffers"
  by (simp add: frames_rendered_def issue_def)

lemma frames_rendered_update [simp]:
  "frames_rendered (s\<lparr>angleX := x\<rparr>) = frames_rendered s"
  "frames_rendered (s\<lparr>angleY := y\<rparr>) = frames_rendered s"
  "frames_rendered (s\<lparr>should_close := b\<rparr>) = frames_rendered s"
  by (simp_all add: frames_rendered_def)

lemma frames_rendered_render_frame: "frames_rendered (render_frame s) = Suc (frames_rendered s)"
  by (simp add: render_frame_def drawCube_def Let_def frames_rendered_issue drawCube_calls_def)

lemma frames_rendered_key_callback: "frames_rendered (key_callback key action s) = frames_rendered s"
  by (simp add: key_callback_def Let_def frames_rendered_issue)

lemma frames_rendered_deliver: "frames_rendered (deliver e s) = frames_rendered s"
  by (cases e) (simp_all add: frames_rendered_key_callback)

lemma frames_rendered_fold_deliver: "frames_rendered (fold deliver evs s) = frames_rendered s"
  by (induction evs arbitrary: s) (simp_all add: frames_rendered_deliver)

lemma frames_rendered_loop_body:
  "frames_rendered (poll_events evs (render_frame s)) = Suc (frames_rendered s)"
  by (simp add: poll_events_def frames_rendered_fold_deliver frames_rendered_issue
      frames_rendered_render_frame)

lemma frames_rendered_running:
  assumes "\<not> exited (main_loop polls s)"
  shows "frames_rendered (final (main_loop polls s)) = frames_rendered s + length polls"
  using assms
proof (induction polls arbitrary: s)
  case Nil
  then show ?case by simp
next
  case (Cons evs polls)
  have c: "\<not> should_close s"
    using Cons.prems by (auto split: if_splits)
  then have "\<not> exited (main_loop polls (poll_events evs (render_frame s)))"
    using Cons.prems by simp
  then have "frames_rendered (final (main_loop polls (poll_events evs (render_frame s))))
      = frames_rendered (poll_events evs (render_frame s)) + length polls"
    by (rule Cons.IH)
  then show ?case
    using c by (simp add: frames_rendered_loop_body)
qed

lemma permuted_batches:
  assumes "list_all2 (\<lambda>evs evs'. mset evs' = mset evs) polls polls'"
  shows "net_right polls' = net_right polls"
    and "length polls' = length polls"
    and "length (concat polls') = length (concat polls)"
    and "list_all P (concat polls') = list_all P (concat polls)"
proof -
  have m: "mset (concat polls') = mset (concat polls)"
    using assms by (induction rule: list_all2_induct) simp_all
  have c: "count_list (concat polls') e = count_list (concat polls) e" for e
    using m by (metis count_mset)
  show "net_right polls' = net_right polls"
    by (simp add: net_right_def count_key_def c)
  show "length polls' = length polls"
    using assms by (simp add: list_all2_lengthD)
  show "length (concat polls') = length (concat polls)"
    using m by (metis size_mset)
  show "list_all P (concat polls') = list_all P (concat polls)"
    using m by (metis list_all_iff set_mset_mset)
qed

text \<open>
  Claim C1, amended. The loop starts with the window open and a yaw of \<open>m / 2\<close>; every event
  delivered is a press or repeat of LEFT or RIGHT; and the yaw stays within \<open>8388608\<close> degrees
  all the way (within that range every float sum of half degrees is exact). Then one frame
  is rendered per poll and the yaw has changed by \<open>5 * (right presses + right repeats - left
  presses - left repeats) + 0.5 * (frames rendered)\<close>; and a reordering of the events inside
  the polls that also stays within the range gives the same yaw.
\<close>

theorem yaw_net_change:
  assumes "\<not> should_close s"
    and "angleY s = Finite (of_int m / 2)"
    and "list_all is_rotate_lr (concat polls)"
    and "in_exact_range m (yaw_steps polls)"
    and "list_all2 (\<lambda>evs evs'. mset evs' = mset evs) polls polls'"
    and "in_exact_range m (yaw_steps polls')"
  shows "angleY (final (main_loop polls s))
           = Finite (of_int m / 2 + 5 * of_int (net_right polls)
                     + of_nat (frames_rendered (final (main_loop polls s)) - frames_rendered s) / 2)
       \<and> frames_rendered (final (main_loop polls s)) = frames_rendered s + length polls
       \<and> angleY (final (main_loop polls' s)) = angleY (final (main_loop polls s))"
proof -
  note a = main_loop_exact [OF assms(1-4)]
  note p = permuted_batches [OF assms(5)]
  have 3: "list_all is_rotate_lr (concat polls')"
    using assms(3) by (simp only: p(4))
  note b = main_loop_exact [OF assms(1,2) 3 assms(6)]
  have f: "frames_rendered (final (main_loop polls s)) = frames_rendered s + length polls"
    using a by (simp add: frames_rendered_running)
  have "rat_of_int (m + sum_list (yaw_steps polls)) / 2
      = of_int m / 2 + 5 * of_int (net_right polls) + of_nat (length polls) / 2"
    by (simp add: sum_yaw_steps add_divide_distrib)
  then have "angleY (final (main_loop polls s))
      = Finite (of_int m / 2 + 5 * of_int (net_right polls) + of_nat (length polls) / 2)"
    using a by simp
  moreover have "sum_list (yaw_steps polls') = sum_list (yaw_steps polls)"
    by (simp add: sum_yaw_steps p(1,2))
  then have "angleY (final (main_loop polls' s)) = angleY (final (main_loop polls s))"
    using a b by simp
  ultimately show ?thesis
    using f by simp
qed

theorem yaw_net_change_witness:
  "\<not> should_close initial_state
   \<and> angleY initial_state = Finite (of_int 0 / 2)
   \<and> list_all is_rotate_lr (concat
         [[KeyEvent GLFW_KEY_RIGHT GLFW_PRESS, KeyEvent GLFW_KEY_LEFT GLFW_REPEAT],
          [KeyEvent GLFW_KEY_RIGHT GLFW_REPEAT]])
   \<and> in_exact_range 0 (yaw_steps
         [[KeyEvent GLFW_KEY_RIGHT GLFW_PRESS, KeyEvent GLFW_KEY_LEFT GLFW_REPEAT],
          [KeyEvent GLFW_KEY_RIGHT GLFW_REPEAT]])
   \<and> list_all2 (\<lambda>evs evs'. mset evs' = mset evs)
         [[KeyEvent GLFW_KEY_RIGHT GLFW_PRESS, KeyEvent GLFW_KEY_LEFT GLFW_REPEAT],
          [KeyEvent GLFW_KEY_RIGHT GLFW_REPEAT]]
         [[KeyEvent GLFW_KEY_LEFT GLFW_REPEAT, KeyEvent GLFW_KEY_RIGHT GLFW_PRESS],
          [KeyEvent GLFW_KEY_RIGHT GLFW_REPEAT]]
   \<and> in_exact_range 0 (yaw_steps
         [[KeyEvent GLFW_KEY_LEFT GLFW_REPEAT, KeyEvent GLFW_KEY_RIGHT GLFW_PRESS],
          [KeyEvent GLFW_KEY_RIGHT GLFW_REPEAT]])
   \<and> angleY (final (main_loop
         [[KeyEvent GLFW_KEY_RIGHT GLFW_PRESS, KeyEvent GLFW_KEY_LEFT GLFW_REPEAT],
          [KeyEvent GLFW_KEY_RIGHT GLFW_REPEAT]] initial_state)) = Finite 6
   \<and> frames_rendered (final (main_loop
         [[KeyEvent GLFW_KEY_RIGHT GLFW_PRESS, KeyEvent GLFW_KEY_LEFT GLFW_REPEAT],
          [KeyEvent GLFW_KEY_RIGHT GLFW_REPEAT]] initial_state)) = 2
   \<and> angleY (final (main_loop
         [[KeyEvent GLFW_KEY_LEFT GLFW_REPEAT, KeyEvent GLFW_KEY_RIGHT GLFW_PRESS],
          [KeyEvent GLFW_KEY_RIGHT GLFW_REPEAT]] initial_state)) = Finite 6"
proof -
  let ?P = "[[KeyEvent GLFW_KEY_RIGHT GLFW_PRESS, KeyEvent GLFW_KEY_LEFT GLFW_REPEAT],
             [KeyEvent GLFW_KEY_RIGHT GLFW_REPEAT]]"
  let ?P' = "[[KeyEvent GLFW_KEY_LEFT GLFW_REPEAT, KeyEvent GLFW_KEY_RIGHT GLFW_PRESS],
              [KeyEvent GLFW_KEY_RIGHT GLFW_REPEAT]]"
  have h1: "\<not> should_close initial_state"
    by (simp add: initial_fields)
  have h2: "angleY initial_state = Finite (of_int 0 / 2)"
    by (simp add: initial_fields)
  have h3: "list_all is_rotate_lr (concat ?P)"
    by simp
  have h4: "in_exact_range 0 (yaw_steps ?P)"
    by (simp add: yaw_steps_def glfw_codes)
  have h5: "list_all2 (\<lambda>evs evs'. mset evs' = mset evs) ?P ?P'"
    by simp
  have h6: "in_exact_range 0 (yaw_steps ?P')"
    by (simp add: yaw_steps_def glfw_codes)
  have n: "net_right ?P = 1"
    by (simp add: net_right_def count_key_def glfw_codes)
  have f: "frames_rendered initial_state = 0"
    by (simp add: frames_rendered_def initial_fields)
  note yaw_net_change [OF h1 h2 h3 h4 h5 h6]
  then have "angleY (final (main_loop ?P initial_state)) = Finite 6
     \<and> frames_rendered (final (main_loop ?P initial_state)) = 2
     \<and> angleY (final (main_loop ?P' initial_state)) = Finite 6"
    by (simp add: n f)
  then show ?thesis
    using h1 h2 h3 h4 h5 h6 by blast
qed

text \<open>One press of RIGHT in the first poll, then \<open>2 ^ 24\<close> more frames: the yaw ends at
  \<open>8388608\<close>, the formula gives \<open>8388613.5\<close>.\<close>

theorem yaw_net_change_counterexample:
  "angleY (final (main_loop ([KeyEvent GLFW_KEY_RIGHT GLFW_PRESS] # replicate 16777216 [])
      initial_state))
     \<noteq> Finite (0 + 5 * of_int (net_right ([KeyEvent GLFW_KEY_RIGHT GLFW_PRESS] # replicate 16777216 []))
          + of_nat (frames_rendered (final (main_loop
              ([KeyEvent GLFW_KEY_RIGHT GLFW_PRESS] # replicate 16777216 []) initial_state))
            - frames_rendered initial_state) / 2)
   \<and> angleY (final (main_loop ([KeyEvent GLFW_KEY_RIGHT GLFW_PRESS] # replicate 16777216 [])
      initial_state)) = Finite 8388608
   \<and> net_right ([KeyEvent GLFW_KEY_RIGHT GLFW_PRESS] # replicate 16777216 []) = 1
   \<and> frames_rendered (final (main_loop ([KeyEvent GLFW_KEY_RIGHT GLFW_PRESS] # replicate 16777216 [])
      initial_state)) = 16777217
   \<and> Finite 8388608 \<noteq> Finite (0 + 5 * 1 + 16777217 / 2)"
proof -
  let ?e = "[KeyEvent GLFW_KEY_RIGHT GLFW_PRESS]"
  let ?s1 = "poll_events ?e (render_frame initial_state)"
  have n: "net_right [?e] = 1"
    by (simp add: net_right_def count_key_def glfw_codes)
  have h2: "angleY initial_state = Finite (of_int 0 / 2)"
    by (simp add: initial_fields)
  have "list_all is_rotate_lr ?e" and "in_exact_range 0 (1 # map yaw_step ?e)"
    by (simp_all add: glfw_codes)
  note body = loop_body_exact [OF this(1) h2 this(2)]
  have y1: "angleY ?s1 = Finite (of_int 11 / 2)"
    using body by (simp add: glfw_codes)
  have c1: "\<not> should_close ?s1"
    using body by (simp add: initial_fields)
  have b: "\<bar>11\<bar> + int 16777205 \<le> 2 ^ 24"
    by simp
  let ?r = "main_loop (replicate 16777205 []) ?s1"
  note a = frames_exact [OF c1 y1 b]
  have y: "angleY (final ?r) = Finite 8388608"
    using a(2) by simp
  have c: "\<not> should_close (final ?r)"
    using a(1) by (simp add: exited_iff_should_close)
  note sat = frames_saturated [OF c y, of 11]
  have "replicate (16777205 + 11) [] = replicate 16777205 [] @ replicate 11 ([]::event list)"
    by (rule replicate_add)
  moreover have "(16777205::nat) + 11 = 16777216"
    by simp
  ultimately have "replicate 16777216 [] = replicate 16777205 [] @ replicate 11 ([]::event list)"
    by (simp only:)
  then have split: "main_loop (replicate 16777216 []) ?s1 = main_loop (replicate 11 []) (final ?r)"
    using main_loop_append_running [OF a(1)] by simp
  have whole: "main_loop (?e # replicate 16777216 []) initial_state
      = main_loop (replicate 11 []) (final ?r)"
    using split by (simp add: initial_fields)
  have running: "\<not> exited (main_loop (?e # replicate 16777216 []) initial_state)"
    unfolding whole using sat by blast
  have 1: "angleY (final (main_loop (?e # replicate 16777216 []) initial_state)) = Finite 8388608"
    unfolding whole using sat by blast
  have "net_right (?e # replicate 16777216 []) = net_right [?e] + net_right (replicate 16777216 [])"
    by (rule net_right_Cons)
  then have 2: "net_right (?e # replicate 16777216 []) = 1"
    by (simp only: n net_right_replicate)
  have 3: "frames_rendered (final (main_loop (?e # replicate 16777216 []) initial_state)) = 16777217"
    using frames_rendered_running [OF running] by (simp add: frames_rendered_def initial_fields)
  have 4: "Finite 8388608 \<noteq> Finite (0 + 5 * 1 + 16777217 / 2)"
    by simp
  have f0: "frames_rendered initial_state = 0"
    by (simp add: frames_rendered_def initial_fields)
  have 0: "angleY (final (main_loop (?e # replicate 16777216 []) initial_state))
     \<noteq> Finite (0 + 5 * of_int (net_right (?e # replicate 16777216 []))
          + of_nat (frames_rendered (final (main_loop (?e # replicate 16777216 []) initial_state))
            - frames_rendered initial_state) / 2)"
    by (simp only: 1 2 3 f0) simp
  show ?thesis
    using 0 1 2 3 4 by blast
qed

lemma f32_minus_5: "f32 (- 5) = Finite (- 5)"
  using f32_half_int [of "- 10"] by simp

text \<open>
  Claim C7. From pitch \<open>0\<close> and yaw \<open>0\<close>, one press of UP makes the pitch \<open>- 5\<close> and leaves yaw
  alone; two iterations of the loop with no input then render two frames and end with
  pitch \<open>- 5\<close> and yaw \<open>1\<close>.
\<close>

theorem rotate_up_then_two_frames:
  "angleX (key_callback GLFW_KEY_UP GLFW_PRESS initial_state) = Finite (- 5)
   \<and> angleY (key_callback GLFW_KEY_UP GLFW_PRESS initial_state) = Finite 0
   \<and> \<not> exited (main_loop [[], []] (key_callback GLFW_KEY_UP GLFW_PRESS initial_state))
   \<and> frames_rendered (final (main_loop [[], []] (key_callback GLFW_KEY_UP GLFW_PRESS initial_state))) = 2
   \<and> angleX (final (main_loop [[], []] (key_callback GLFW_KEY_UP GLFW_PRESS initial_state))) = Finite (- 5)
   \<and> angleY (final (main_loop [[], []] (key_callback GLFW_KEY_UP GLFW_PRESS initial_state))) = Finite 1"
proof -
  let ?s = "key_callback GLFW_KEY_UP GLFW_PRESS initial_state"
  have k: "angleX ?s = Finite (- 5)" "angleY ?s = Finite 0" "\<not> should_close ?s"
    "frames_rendered ?s = 0"
    by (simp_all add: key_callback_def glfw_codes Let_def initial_fields f32_5 f32_minus_5
        frames_rendered_def)
  have y: "angleY ?s = Finite (of_int 0 / 2)"
    using k(2) by simp
  have b: "\<bar>0\<bar> + int 2 \<le> 2 ^ 24"
    by simp
  have r: "replicate 2 [] = [[], ([]::event list)]"
    by (simp add: numeral_2_eq_2)
  note a = frames_exact [OF k(3) y b]
  have f: "frames_rendered (final (main_loop [[], []] ?s)) = 2"
    using frames_rendered_running [of "[[], []]" ?s] a(1) k(4) by (simp only: r) simp
  show ?thesis
    using a k f by (simp only: r) simp
qed


section \<open>Leaving the loop\<close>

lemma main_enters_loop:
  "main True True polls =
     (case main_loop polls loop_entry_state of
        Exited s \<Rightarrow> Returned 0 (issue [glfwTerminate] s)
      | Running s \<Rightarrow> Unfinished s)"
  by (simp add: main_def loop_entry_state_def Let_def)

lemma should_close_key_callback:
  "should_close (key_callback key action s)
     = (should_close s \<or> (key = GLFW_KEY_ESCAPE \<and> action = GLFW_PRESS))"
  by (auto simp add: key_callback_def Let_def issue_def glfw_codes)

lemma key_callback_escape_release: "key_callback GLFW_KEY_ESCAPE GLFW_RELEASE s = s"
  by (simp add: key_callback_def glfw_codes)

lemma should_close_deliver: "should_close (deliver e s) = (should_close s \<or> requests_exit e)"
  by (cases e) (simp_all add: should_close_key_callback)

lemma should_close_fold_deliver:
  "should_close (fold deliver evs s) = (should_close s \<or> list_ex requests_exit evs)"
  by (induction evs arbitrary: s) (auto simp add: should_close_deliver)

lemma should_close_loop_body:
  "should_close (poll_events evs (render_frame s)) = (should_close s \<or> list_ex requests_exit evs)"
  by (simp add: poll_events_def should_close_fold_deliver issue_fields render_frame_fields)

lemma exited_iff_requested:
  "exited (main_loop polls s) = (should_close s \<or> list_ex (list_ex requests_exit) polls)"
  by (induction polls arbitrary: s) (auto simp add: should_close_loop_body)

lemma main_loop_append_exited:
  assumes "exited (main_loop xs s)"
  shows "main_loop (xs @ ys) s = main_loop xs s"
  using assms by (cases "main_loop xs s") (simp_all add: main_loop_append)

lemma frames_rendered_bound:
  "frames_rendered (final (main_loop polls s)) \<le> frames_rendered s + length polls"
proof (induction polls arbitrary: s)
  case Nil
  then show ?case by simp
next
  case (Cons evs polls)
  have "frames_rendered (final (main_loop polls (poll_events evs (render_frame s))))
      \<le> frames_rendered (poll_events evs (render_frame s)) + length polls"
    by (rule Cons.IH)
  then show ?case
    by (simp add: frames_rendered_loop_body)
qed

text \<open>
  Claim C5. The loop has exited exactly when the close flag was already set or some poll
  delivered a press of ESCAPE or a close request: there is no other way out. When a poll
  delivers a press of ESCAPE, the loop exits at the next test of its condition: it has
  exited once that poll is done, what the environment would deliver afterwards changes
  nothing, no frame is rendered beyond the one that preceded the poll, and \<^verbatim>\<open>main\<close>
  returns \<open>0\<close>.
\<close>

theorem quit_terminates_loop:
  "exited (main_loop polls s) = (should_close s \<or> list_ex (list_ex requests_exit) polls)
   \<and> (KeyEvent GLFW_KEY_ESCAPE GLFW_PRESS \<in> set evs \<longrightarrow>
        exited (main_loop (pre @ [evs]) s)
        \<and> main_loop (pre @ evs # post) s = main_loop (pre @ [evs]) s
        \<and> frames_rendered (final (main_loop (pre @ evs # post) s))
            \<le> frames_rendered s + length pre + 1
        \<and> return_code (main True True (pre @ evs # post)) = Some 0)"
proof -
  have 1: "exited (main_loop polls s) = (should_close s \<or> list_ex (list_ex requests_exit) polls)"
    by (rule exited_iff_requested)
  have 2: "exited (main_loop (pre @ [evs]) s')
        \<and> main_loop (pre @ evs # post) s' = main_loop (pre @ [evs]) s'
        \<and> frames_rendered (final (main_loop (pre @ evs # post) s'))
            \<le> frames_rendered s' + length pre + 1"
    if esc: "KeyEvent GLFW_KEY_ESCAPE GLFW_PRESS \<in> set evs" for s'
  proof -
    have "list_ex requests_exit evs"
      using esc by (auto simp add: list_ex_iff intro!: bexI [of _ "KeyEvent GLFW_KEY_ESCAPE GLFW_PRESS"])
    then have e: "exited (main_loop (pre @ [evs]) s')"
      by (simp add: exited_iff_requested)
    have "main_loop ((pre @ [evs]) @ post) s' = main_loop (pre @ [evs]) s'"
      by (rule main_loop_append_exited [OF e])
    then have eq: "main_loop (pre @ evs # post) s' = main_loop (pre @ [evs]) s'"
      by simp
    have "frames_rendered (final (main_loop (pre @ [evs]) s')) \<le> frames_rendered s' + length (pre @ [evs])"
      by (rule frames_rendered_bound)
    then show ?thesis
      using e eq by simp
  qed
  have 3: "return_code (main True True (pre @ evs # post)) = Some 0"
    if esc: "KeyEvent GLFW_KEY_ESCAPE GLFW_PRESS \<in> set evs"
  proof -
    have "exited (main_loop (pre @ evs # post) loop_entry_state)"
      using 2 [OF esc, of loop_entry_state] by simp
    then show ?thesis
      by (cases "main_loop (pre @ evs # post) loop_entry_state") (simp_all add: main_enters_loop)
  qed
  show ?thesis
    using 1 2 [of s] 3 by blast
qed

theorem quit_terminates_loop_witness:
  "KeyEvent GLFW_KEY_ESCAPE GLFW_PRESS \<in> set [KeyEvent GLFW_KEY_ESCAPE GLFW_PRESS]
   \<and> exited (main_loop ([[]] @ [[KeyEvent GLFW_KEY_ESCAPE GLFW_PRESS]]) initial_state)
   \<and> main_loop ([[]] @ [KeyEvent GLFW_KEY_ESCAPE GLFW_PRESS] # [[], []]) initial_state
       = main_loop ([[]] @ [[KeyEvent GLFW_KEY_ESCAPE GLFW_PRESS]]) initial_state
   \<and> frames_rendered (final (main_loop ([[]] @ [KeyEvent GLFW_KEY_ESCAPE GLFW_PRESS] # [[], []])
        initial_state)) \<le> 2
   \<and> return_code (main True True ([[]] @ [KeyEvent GLFW_KEY_ESCAPE GLFW_PRESS] # [[], []])) = Some 0"
proof -
  have h: "KeyEvent GLFW_KEY_ESCAPE GLFW_PRESS \<in> set [KeyEvent GLFW_KEY_ESCAPE GLFW_PRESS]"
    by simp
  have f: "frames_rendered initial_state + length [[]::event list] + 1 = 2"
    by (simp add: frames_rendered_def initial_fields)
  have "exited (main_loop ([[]] @ [[KeyEvent GLFW_KEY_ESCAPE GLFW_PRESS]]) initial_state)
   \<and> main_loop ([[]] @ [KeyEvent GLFW_KEY_ESCAPE GLFW_PRESS] # [[], []]) initial_state
       = main_loop ([[]] @ [[KeyEvent GLFW_KEY_ESCAPE GLFW_PRESS]]) initial_state
   \<and> frames_rendered (final (main_loop ([[]] @ [KeyEvent GLFW_KEY_ESCAPE GLFW_PRESS] # [[], []])
        initial_state)) \<le> frames_rendered initial_state + length [[]::event list] + 1
   \<and> return_code (main True True ([[]] @ [KeyEvent GLFW_KEY_ESCAPE GLFW_PRESS] # [[], []])) = Some 0"
    using h quit_terminates_loop [of "[]" initial_state "[KeyEvent GLFW_KEY_ESCAPE GLFW_PRESS]"
        "[[]]" "[[], []]"]
    by blast
  then show ?thesis
    using h unfolding f by blast
qed

text \<open>
  Claim C6. A release of ESCAPE leaves the whole state as it is: the close flag, both
  angles, and the calls issued. The callback sets the close flag only for ESCAPE with the
  action press. A poll that delivers a release of ESCAPE lets the loop go on exactly as a
  poll that delivers nothing.
\<close>

theorem escape_release_ignored:
  "key_callback GLFW_KEY_ESCAPE GLFW_RELEASE s = s
   \<and> should_close (key_callback key action s)
       = (should_close s \<or> (key = GLFW_KEY_ESCAPE \<and> action = GLFW_PRESS))
   \<and> main_loop ([KeyEvent GLFW_KEY_ESCAPE GLFW_RELEASE] # rest) s = main_loop ([] # rest) s"
proof -
  have 1: "key_callback GLFW_KEY_ESCAPE GLFW_RELEASE s = s"
    by (rule key_callback_escape_release)
  have 2: "should_close (key_callback key action s)
       = (should_close s \<or> (key = GLFW_KEY_ESCAPE \<and> action = GLFW_PRESS))"
    by (rule should_close_key_callback)
  have 3: "main_loop ([KeyEvent GLFW_KEY_ESCAPE GLFW_RELEASE] # rest) s = main_loop ([] # rest) s"
    by (simp add: poll_events_def key_callback_escape_release)
  show ?thesis
    using 1 2 3 by blast
qed


section \<open>Failures before the loop\<close>

text \<open>
  Claim C9. When \<^verbatim>\<open>glfwInit\<close> fails, \<^verbatim>\<open>main\<close> returns \<open>- 1\<close> and \<^verbatim>\<open>glfwInit\<close> is the only
  backend call made. When \<^verbatim>\<open>glfwInit\<close> succeeds and no window is created, \<^verbatim>\<open>main\<close> calls
  \<^verbatim>\<open>glfwTerminate\<close> as its last backend call and returns \<open>- 1\<close>. The status \<open>- 1\<close> is not \<open>0\<close>.
\<close>

theorem startup_failures:
  "return_code (main False window_ok polls) = Some (- 1)
   \<and> calls (state_of (main False window_ok polls)) = [glfwInit]
   \<and> return_code (main True False polls) = Some (- 1)
   \<and> calls (state_of (main True False polls))
       = [glfwInit, glfwCreateWindow 800 600 ''Simple 3D Game - Hello World'', glfwTerminate]
   \<and> Some (- 1) \<noteq> Some (0::int)"
  by (simp add: main_def issue_def initial_state_def WIDTH_def HEIGHT_def)


section \<open>The cube\<close>

lemma calls_render_frame:
  "calls (render_frame s) = calls s @
      [glClear {GL_COLOR_BUFFER_BIT, GL_DEPTH_BUFFER_BIT},
       glClearColor (f32 (1 / 10)) (f32 (1 / 10)) (f32 (15 / 100)) (f32 1),
       glLoadIdentity,
       glTranslatef (f32 0) (f32 0) (f32 (- 3)),
       glRotatef (angleX s) (f32 1) (f32 0) (f32 0),
       glRotatef (angleY s) (f32 0) (f32 1) (f32 0)] @ drawCube_calls @ [glfwSwapBuffers]"
  by (simp add: render_frame_def drawCube_def issue_def Let_def)

lemma gl_run_append: "gl_run (xs @ ys) g = gl_run ys (gl_run xs g)"
  by (simp add: gl_run_def)

lemma gl_run_Cons: "gl_run (c # cs) g = gl_run cs (gl c g)"
  by (simp add: gl_run_def)

lemma gl_run_Nil: "gl_run [] g = g"
  by (simp add: gl_run_def)

lemma calls_since_render_frame:
  "calls_since s (render_frame s) =
      [glClear {GL_COLOR_BUFFER_BIT, GL_DEPTH_BUFFER_BIT},
       glClearColor (f32 (1 / 10)) (f32 (1 / 10)) (f32 (15 / 100)) (f32 1),
       glLoadIdentity,
       glTranslatef (f32 0) (f32 0) (f32 (- 3)),
       glRotatef (angleX s) (f32 1) (f32 0) (f32 0),
       glRotatef (angleY s) (f32 0) (f32 1) (f32 0)] @ drawCube_calls @ [glfwSwapBuffers]"
  by (simp add: calls_since_def calls_render_frame)

lemmas gl_eval = gl_run_Cons gl_run_Nil gl_run_append f32_literals set_current_matrix_def
  current_matrix_def

lemma drawCube_fields:
  "mode (gl_run drawCube_calls g) = mode g"
  "modelview (gl_run drawCube_calls g) = modelview g"
  "projection (gl_run drawCube_calls g) = projection g"
  "clear_colour (gl_run drawCube_calls g) = clear_colour g"
  by (simp_all add: drawCube_calls_def gl_eval)

lemma swap_fields:
  "mode (gl_run [glfwSwapBuffers] g) = mode g"
  "modelview (gl_run [glfwSwapBuffers] g) = modelview g"
  "clear_colour (gl_run [glfwSwapBuffers] g) = clear_colour g"
  "drawn_by [glfwSwapBuffers] g = [Presented]"
  by (simp_all add: gl_eval drawn_by_def)

lemma drawCube_modelviews:
  "quad_modelviews (drawn_by drawCube_calls g)
     = [modelview g, modelview g, modelview g, modelview g, modelview g, modelview g]"
  by (simp add: drawn_by_def drawCube_calls_def gl_eval)

lemma effects_gl: "effects (gl c g) = effects g @ drawn_by [c] g"
proof (cases c)
  case (glVertex3f x y z)
  then show ?thesis
    by (cases "assembling g") (simp_all add: drawn_by_def gl_run_Cons gl_run_Nil Let_def)
next
  case (glEnable cap)
  then show ?thesis
    by (cases cap) (simp add: drawn_by_def gl_run_Cons gl_run_Nil)
next
  case (glBegin p)
  then show ?thesis
    by (cases p) (simp add: drawn_by_def gl_run_Cons gl_run_Nil)
qed (simp_all add: drawn_by_def gl_run_Cons gl_run_Nil set_current_matrix_def
    split: matrix_mode.splits)

lemma effects_gl_run: "effects (gl_run cs g) = effects g @ drawn_by cs g"
proof (induction cs arbitrary: g)
  case Nil
  then show ?case by (simp add: drawn_by_def gl_run_Nil)
next
  case (Cons c cs)
  have "effects (gl_run (c # cs) g) = effects (gl c g) @ drawn_by cs (gl c g)"
    by (simp add: gl_run_Cons Cons.IH)
  also have "\<dots> = effects g @ drawn_by [c] g @ drawn_by cs (gl c g)"
    by (simp add: effects_gl)
  finally have *: "effects (gl_run (c # cs) g) = effects g @ drawn_by [c] g @ drawn_by cs (gl c g)" .
  then have "drawn_by (c # cs) g = drawn_by [c] g @ drawn_by cs (gl c g)"
    by (simp add: drawn_by_def [of "c # cs"])
  with * show ?case by simp
qed

lemma drawn_by_append:
  "drawn_by (xs @ ys) g = drawn_by xs g @ drawn_by ys (gl_run xs g)"
proof -
  have "effects g @ drawn_by (xs @ ys) g = effects g @ drawn_by xs g @ drawn_by ys (gl_run xs g)"
    by (metis effects_gl_run gl_run_append append.assoc)
  then show ?thesis by simp
qed

lemma quad_modelviews_append:
  "quad_modelviews (xs @ ys) = quad_modelviews xs @ quad_modelviews ys"
  by (induction xs rule: quad_modelviews.induct) simp_all

lemma clears_append: "clears (xs @ ys) = clears xs @ clears ys"
  by (induction xs rule: clears.induct) simp_all

lemma drawCube_clears: "clears (drawn_by drawCube_calls g) = []"
  by (simp add: drawn_by_def drawCube_calls_def gl_eval)

text \<open>What one call of \<^verbatim>\<open>drawCube\<close> issues, from any state.\<close>

lemma calls_since_drawCube: "calls_since s (drawCube s) = drawCube_calls"
  by (simp add: calls_since_def drawCube_def issue_def)

text \<open>
  Claim C4. The calls that one call of \<^verbatim>\<open>drawCube\<close> issues, from any state of the program:
  they open with \<^verbatim>\<open>glBegin(GL_QUADS)\<close> and close with \<^verbatim>\<open>glEnd\<close>; a colour is set six times
  and each colour call is followed directly by exactly four vertex calls, which are all the
  24 vertex calls. In any context these calls draw exactly six quads of four vertices each;
  the quads are, in order, the front, back, top, bottom, right and left face; the four
  vertices of a face carry one colour; and the six colours (red, green, blue, yellow,
  magenta, cyan) are pairwise distinct.
\<close>

theorem drawCube_faces:
  "hd (calls_since s (drawCube s)) = glBegin GL_QUADS
   \<and> last (calls_since s (drawCube s)) = glEnd
   \<and> vertices_per_colour (calls_since s (drawCube s)) = [4, 4, 4, 4, 4, 4]
   \<and> length (filter is_vertex_call (calls_since s (drawCube s))) = 24
   \<and> length (drawn_by (calls_since s (drawCube s)) g) = 6
   \<and> map length (quads (drawn_by (calls_since s (drawCube s)) g)) = [4, 4, 4, 4, 4, 4]
   \<and> map side_of (quads (drawn_by (calls_since s (drawCube s)) g))
       = [Some Front, Some Back, Some Top, Some Bottom, Some Right_side, Some Left_side]
   \<and> map (common colour) (quads (drawn_by (calls_since s (drawCube s)) g))
       = [Some (Finite 1, Finite 0, Finite 0), Some (Finite 0, Finite 1, Finite 0),
          Some (Finite 0, Finite 0, Finite 1), Some (Finite 1, Finite 1, Finite 0),
          Some (Finite 1, Finite 0, Finite 1), Some (Finite 0, Finite 1, Finite 1)]
   \<and> distinct (map (common colour) (quads (drawn_by (calls_since s (drawCube s)) g)))"
proof -
  have e: "calls_since s (drawCube s) = drawCube_calls"
    by (rule calls_since_drawCube)
  have 1: "hd drawCube_calls = glBegin GL_QUADS" "last drawCube_calls = glEnd"
    by (simp_all add: drawCube_calls_def)
  have 2: "vertices_per_colour drawCube_calls = [4, 4, 4, 4, 4, 4]"
    by (simp add: drawCube_calls_def)
  have 3: "length (filter is_vertex_call drawCube_calls) = 24"
    by (simp add: drawCube_calls_def)
  have 4: "length (drawn_by drawCube_calls g) = 6"
    by (simp add: drawn_by_def drawCube_calls_def gl_eval)
  have 5: "map length (quads (drawn_by drawCube_calls g)) = [4, 4, 4, 4, 4, 4]"
    by (simp add: drawn_by_def drawCube_calls_def gl_eval)
  have 6: "map side_of (quads (drawn_by drawCube_calls g))
       = [Some Front, Some Back, Some Top, Some Bottom, Some Right_side, Some Left_side]"
    by (simp add: drawn_by_def drawCube_calls_def gl_eval side_of_def plane_of_def)
  have 7: "map (common colour) (quads (drawn_by drawCube_calls g))
       = [Some (Finite 1, Finite 0, Finite 0), Some (Finite 0, Finite 1, Finite 0),
          Some (Finite 0, Finite 0, Finite 1), Some (Finite 1, Finite 1, Finite 0),
          Some (Finite 1, Finite 0, Finite 1), Some (Finite 0, Finite 1, Finite 1)]"
    by (simp add: drawn_by_def drawCube_calls_def gl_eval)
  have 8: "distinct (map (common colour) (quads (drawn_by drawCube_calls g)))"
    by (simp only: 7) simp
  show ?thesis
    unfolding e using 1 2 3 4 5 6 7 8 by blast
qed

text \<open>
  Claim C10. One call of \<^verbatim>\<open>drawCube\<close>, from any state of the program, issues 24 vertex
  calls, and every coordinate of every vertex passed is \<open>1 / 2\<close> or \<open>- 1 / 2\<close>. The quads that
  these calls draw in any context hold those 24 vertices, four to a face, and the four
  vertices of each face agree on exactly one coordinate, the one perpendicular to the face:
  \<open>z = 1 / 2\<close>, \<open>z = - 1 / 2\<close>, \<open>y = 1 / 2\<close>, \<open>y = - 1 / 2\<close>, \<open>x = 1 / 2\<close>, \<open>x = - 1 / 2\<close> in the
  order drawn.
\<close>

theorem drawCube_vertices:
  "length (emitted_vertices (calls_since s (drawCube s))) = 24
   \<and> list_all cube_corner (emitted_vertices (calls_since s (drawCube s)))
   \<and> map position (concat (quads (drawn_by (calls_since s (drawCube s)) g)))
       = emitted_vertices (calls_since s (drawCube s))
   \<and> map length (quads (drawn_by (calls_since s (drawCube s)) g)) = [4, 4, 4, 4, 4, 4]
   \<and> list_all (\<lambda>v. cube_corner (position v))
         (concat (quads (drawn_by (calls_since s (drawCube s)) g)))
   \<and> map plane_of (quads (drawn_by (calls_since s (drawCube s)) g))
       = [[(Z_axis, Finite (1 / 2))], [(Z_axis, Finite (- (1 / 2)))],
          [(Y_axis, Finite (1 / 2))], [(Y_axis, Finite (- (1 / 2)))],
          [(X_axis, Finite (1 / 2))], [(X_axis, Finite (- (1 / 2)))]]"
proof -
  have e: "calls_since s (drawCube s) = drawCube_calls"
    by (rule calls_since_drawCube)
  have 1: "length (emitted_vertices drawCube_calls) = 24"
    by (simp add: drawCube_calls_def)
  have 2: "list_all cube_corner (emitted_vertices drawCube_calls)"
    by (simp add: drawCube_calls_def f32_literals)
  have 3: "map position (concat (quads (drawn_by drawCube_calls g)))
       = emitted_vertices drawCube_calls"
    by (simp add: drawn_by_def drawCube_calls_def gl_eval)
  have 4: "map length (quads (drawn_by drawCube_calls g)) = [4, 4, 4, 4, 4, 4]"
    by (simp add: drawn_by_def drawCube_calls_def gl_eval)
  have 5: "list_all (\<lambda>v. cube_corner (position v)) (concat (quads (drawn_by drawCube_calls g)))"
    by (simp add: drawn_by_def drawCube_calls_def gl_eval)
  have 6: "map plane_of (quads (drawn_by drawCube_calls g))
       = [[(Z_axis, Finite (1 / 2))], [(Z_axis, Finite (- (1 / 2)))],
          [(Y_axis, Finite (1 / 2))], [(Y_axis, Finite (- (1 / 2)))],
          [(X_axis, Finite (1 / 2))], [(X_axis, Finite (- (1 / 2)))]]"
    by (simp add: drawn_by_def drawCube_calls_def gl_eval plane_of_def)
  show ?thesis
    unfolding e using 1 2 3 4 5 6 by blast
qed


section \<open>The frame\<close>

lemma view_matrix_zero:
  "matrix_value (view_matrix (Finite 0) (Finite 0)) = Some (translation 0 0 (- 3))"
  by (simp add: view_matrix_def mat_mul_def translation_def rotation_def identity4_def Let_def)

lemma mode_gl:
  assumes "\<not> sets_matrix_mode c"
  shows "mode (gl c g) = mode g"
proof (cases c)
  case (glVertex3f x y z)
  then show ?thesis
    by (cases "assembling g") (simp_all add: Let_def)
next
  case (glEnable cap)
  then show ?thesis
    by (cases cap) simp
next
  case (glBegin p)
  then show ?thesis
    by (cases p) simp
next
  case (glMatrixMode m)
  then show ?thesis
    using assms by simp
qed (simp_all add: set_current_matrix_def split: matrix_mode.splits)

lemma mode_gl_run:
  assumes "list_all (\<lambda>c. \<not> sets_matrix_mode c) cs"
  shows "mode (gl_run cs g) = mode g"
  using assms by (induction cs arbitrary: g) (simp_all add: gl_run_Nil gl_run_Cons mode_gl)

lemma calls_key_callback:
  "calls (key_callback key action s) =
     calls s @ (if key = GLFW_KEY_ESCAPE \<and> action = GLFW_PRESS
                then [glfwSetWindowShouldClose True] else [])"
  by (auto simp add: key_callback_def Let_def issue_def glfw_codes)

lemma calls_deliver:
  "\<exists>cs. calls (deliver e s) = calls s @ cs \<and> list_all (\<lambda>c. \<not> sets_matrix_mode c) cs"
  by (cases e) (simp_all add: calls_key_callback)

lemma calls_fold_deliver:
  "\<exists>cs. calls (fold deliver evs s) = calls s @ cs \<and> list_all (\<lambda>c. \<not> sets_matrix_mode c) cs"
proof (induction evs arbitrary: s)
  case Nil
  then show ?case by simp
next
  case (Cons e evs)
  obtain cs where 1: "calls (deliver e s) = calls s @ cs" "list_all (\<lambda>c. \<not> sets_matrix_mode c) cs"
    using calls_deliver by blast
  obtain ds where 2: "calls (fold deliver evs (deliver e s)) = calls (deliver e s) @ ds"
      "list_all (\<lambda>c. \<not> sets_matrix_mode c) ds"
    using Cons.IH by blast
  have "calls (fold deliver (e # evs) s) = calls s @ (cs @ ds)"
    using 1 2 by simp
  moreover have "list_all (\<lambda>c. \<not> sets_matrix_mode c) (cs @ ds)"
    using 1 2 by simp
  ultimately show ?case by blast
qed

lemma calls_loop_body:
  "\<exists>cs. calls (poll_events evs (render_frame s)) = calls s @ cs
        \<and> list_all (\<lambda>c. \<not> sets_matrix_mode c) cs"
proof -
  let ?s = "issue [glfwPollEvents] (render_frame s)"
  obtain ds where d: "calls (fold deliver evs ?s) = calls ?s @ ds"
      "list_all (\<lambda>c. \<not> sets_matrix_mode c) ds"
    using calls_fold_deliver by blast
  have f: "list_all (\<lambda>c. \<not> sets_matrix_mode c) (calls_since s (render_frame s))"
    by (simp add: calls_since_render_frame drawCube_calls_def)
  have "calls ?s = calls s @ (calls_since s (render_frame s) @ [glfwPollEvents])"
    by (simp add: issue_def calls_render_frame calls_since_render_frame)
  then have "calls (poll_events evs (render_frame s))
      = calls s @ (calls_since s (render_frame s) @ [glfwPollEvents] @ ds)"
    using d by (simp add: poll_events_def)
  moreover have "list_all (\<lambda>c. \<not> sets_matrix_mode c) (calls_since s (render_frame s) @ [glfwPollEvents] @ ds)"
    using f d by simp
  ultimately show ?thesis by blast
qed

lemma calls_main_loop:
  "\<exists>cs. calls (final (main_loop polls s)) = calls s @ cs
        \<and> list_all (\<lambda>c. \<not> sets_matrix_mode c) cs"
proof (induction polls arbitrary: s)
  case Nil
  then show ?case by simp
next
  case (Cons evs polls)
  show ?case
  proof (cases "should_close s")
    case True
    then show ?thesis by simp
  next
    case False
    let ?s = "poll_events evs (render_frame s)"
    obtain cs where 1: "calls ?s = calls s @ cs" "list_all (\<lambda>c. \<not> sets_matrix_mode c) cs"
      using calls_loop_body by blast
    obtain ds where 2: "calls (final (main_loop polls ?s)) = calls ?s @ ds"
        "list_all (\<lambda>c. \<not> sets_matrix_mode c) ds"
      using Cons.IH by blast
    have "calls (final (main_loop (evs # polls) s)) = calls s @ (cs @ ds)"
      using False 1 2 by simp
    moreover have "list_all (\<lambda>c. \<not> sets_matrix_mode c) (cs @ ds)"
      using 1 2 by simp
    ultimately show ?thesis by blast
  qed
qed

lemma mode_at_loop_entry: "mode (gl_run (calls loop_entry_state) g) = GL_MODELVIEW"
  by (simp add: loop_entry_state_def issue_def initial_state_def setup_calls_def gl_eval)

lemma modelview_mode_in_loop:
  "mode (gl_run (calls (final (main_loop polls loop_entry_state))) g) = GL_MODELVIEW"
proof -
  obtain cs where "calls (final (main_loop polls loop_entry_state)) = calls loop_entry_state @ cs"
      "list_all (\<lambda>c. \<not> sets_matrix_mode c) cs"
    using calls_main_loop by blast
  then show ?thesis
    by (simp add: gl_run_append mode_gl_run mode_at_loop_entry)
qed

text \<open>The frame in any context whose matrix mode is \<^verbatim>\<open>GL_MODELVIEW\<close>.\<close>

lemma frame_view_transform:
  assumes "mode g = GL_MODELVIEW"
  shows "modelview (gl_run (calls_since s (render_frame s)) g) = view_matrix (angleX s) (angleY s)
       \<and> quad_modelviews (drawn_by (calls_since s (render_frame s)) g)
           = [view_matrix (angleX s) (angleY s), view_matrix (angleX s) (angleY s),
              view_matrix (angleX s) (angleY s), view_matrix (angleX s) (angleY s),
              view_matrix (angleX s) (angleY s), view_matrix (angleX s) (angleY s)]"
proof -
  let ?pre = "[glClear {GL_COLOR_BUFFER_BIT, GL_DEPTH_BUFFER_BIT},
       glClearColor (f32 (1 / 10)) (f32 (1 / 10)) (f32 (15 / 100)) (f32 1),
       glLoadIdentity,
       glTranslatef (f32 0) (f32 0) (f32 (- 3)),
       glRotatef (angleX s) (f32 1) (f32 0) (f32 0),
       glRotatef (angleY s) (f32 0) (f32 1) (f32 0)]"
  have pre: "modelview (gl_run ?pre g) = view_matrix (angleX s) (angleY s)"
    using assms by (simp add: gl_eval view_matrix_def)
  have pre_quads: "quad_modelviews (drawn_by ?pre g) = []"
    using assms by (simp add: drawn_by_def gl_eval)
  have 1: "modelview (gl_run (calls_since s (render_frame s)) g) = view_matrix (angleX s) (angleY s)"
    by (simp only: calls_since_render_frame gl_run_append swap_fields drawCube_fields pre)
  have "drawn_by (calls_since s (render_frame s)) g
      = drawn_by ?pre g @ drawn_by drawCube_calls (gl_run ?pre g)
        @ drawn_by [glfwSwapBuffers] (gl_run drawCube_calls (gl_run ?pre g))"
    by (simp only: calls_since_render_frame drawn_by_append gl_run_append)
  then have 2: "quad_modelviews (drawn_by (calls_since s (render_frame s)) g)
           = [view_matrix (angleX s) (angleY s), view_matrix (angleX s) (angleY s),
              view_matrix (angleX s) (angleY s), view_matrix (angleX s) (angleY s),
              view_matrix (angleX s) (angleY s), view_matrix (angleX s) (angleY s)]"
    by (simp only: quad_modelviews_append pre_quads drawCube_modelviews pre swap_fields) simp
  show ?thesis
    using 1 2 by blast
qed

text \<open>
  Claim C3. Take any run of \<^verbatim>\<open>main\<close> up to the start of an iteration of the loop, with the
  angles \<open>pitch\<close> and \<open>yaw\<close> it has reached. The calls of the frame rendered next leave the
  modelview matrix equal to identity, times the translation by \<open>(0, 0, - 3)\<close>, times the
  rotation by \<open>pitch\<close> degrees about X, times the rotation by \<open>yaw\<close> degrees about Y, whatever
  the matrix was before, and each of the six quads of the frame is drawn under that matrix.
  For pitch \<open>0\<close> and yaw \<open>0\<close> the entries of that matrix are those of the translation by
  \<open>(0, 0, - 3)\<close> alone.
\<close>

theorem view_transform_each_frame:
  "(let s = final (main_loop polls loop_entry_state);
        g = gl_run (calls s) gl_initial;
        frame = calls_since s (render_frame s)
    in modelview (gl_run frame g) = view_matrix (angleX s) (angleY s)
       \<and> quad_modelviews (drawn_by frame g)
           = [view_matrix (angleX s) (angleY s), view_matrix (angleX s) (angleY s),
              view_matrix (angleX s) (angleY s), view_matrix (angleX s) (angleY s),
              view_matrix (angleX s) (angleY s), view_matrix (angleX s) (angleY s)])
   \<and> matrix_value (view_matrix (Finite 0) (Finite 0)) = Some (translation 0 0 (- 3))
   \<and> matrix_value (TimesTranslate IdentityM (Finite 0) (Finite 0) (Finite (- 3)))
       = Some (translation 0 0 (- 3))"
proof -
  have m: "mode (gl_run (calls (final (main_loop polls loop_entry_state))) gl_initial) = GL_MODELVIEW"
    by (rule modelview_mode_in_loop)
  note f = frame_view_transform [OF m, of "final (main_loop polls loop_entry_state)"]
  have z: "matrix_value (view_matrix (Finite 0) (Finite 0)) = Some (translation 0 0 (- 3))"
    by (rule view_matrix_zero)
  have t: "matrix_value (TimesTranslate IdentityM (Finite 0) (Finite 0) (Finite (- 3)))
       = Some (translation 0 0 (- 3))"
    by (simp add: mat_mul_def translation_def identity4_def)
  show ?thesis
    using f z t by (simp only: Let_def)
qed

lemma clear_colour_gl:
  "clear_colour (gl c g) =
     (case c of glClearColor r gr b a \<Rightarrow> (clamp01 r, clamp01 gr, clamp01 b, clamp01 a)
      | _ \<Rightarrow> clear_colour g)"
proof (cases c)
  case (glVertex3f x y z)
  then show ?thesis
    by (cases "assembling g") (simp_all add: Let_def)
next
  case (glEnable cap)
  then show ?thesis
    by (cases cap) simp
next
  case (glBegin p)
  then show ?thesis
    by (cases p) simp
qed (simp_all add: set_current_matrix_def split: matrix_mode.splits)

lemma clears_drawn_single:
  "clears (drawn_by [c] g) = (case c of glClear bits \<Rightarrow> [clear_colour g] | _ \<Rightarrow> [])"
proof (cases c)
  case (glVertex3f x y z)
  then show ?thesis
    by (cases "assembling g") (simp_all add: drawn_by_def gl_run_Cons gl_run_Nil Let_def)
next
  case (glEnable cap)
  then show ?thesis
    by (cases cap) (simp add: drawn_by_def gl_run_Cons gl_run_Nil)
next
  case (glBegin p)
  then show ?thesis
    by (cases p) (simp add: drawn_by_def gl_run_Cons gl_run_Nil)
qed (simp_all add: drawn_by_def gl_run_Cons gl_run_Nil set_current_matrix_def
    split: matrix_mode.splits)

lemma clears_drawn_Cons:
  "clears (drawn_by (c # cs) g)
     = (case c of glClear bits \<Rightarrow> [clear_colour g] | _ \<Rightarrow> []) @ clears (drawn_by cs (gl c g))"
  using drawn_by_append [of "[c]" cs g]
  by (simp add: clears_append clears_drawn_single gl_run_Cons gl_run_Nil)

lemma clears_drawn_drawCube:
  "clears (drawn_by (drawCube_calls @ cs) g) = clears (drawn_by cs (gl_run drawCube_calls g))"
  by (simp add: drawn_by_append clears_append drawCube_clears)

lemma clears_drawn_Nil: "clears (drawn_by [] g) = []"
  by (simp add: drawn_by_def gl_run_Nil)

lemma calls_two_frames:
  "calls (state_of (main True True [[], []])) =
     [glfwInit, glfwCreateWindow 800 600 ''Simple 3D Game - Hello World''] @ setup_calls
     @ [glClear {GL_COLOR_BUFFER_BIT, GL_DEPTH_BUFFER_BIT},
        glClearColor (f32 (1 / 10)) (f32 (1 / 10)) (f32 (15 / 100)) (f32 1),
        glLoadIdentity,
        glTranslatef (f32 0) (f32 0) (f32 (- 3)),
        glRotatef (Finite 0) (f32 1) (f32 0) (f32 0),
        glRotatef (Finite 0) (f32 0) (f32 1) (f32 0)] @ drawCube_calls
     @ [glfwSwapBuffers, glfwPollEvents,
        glClear {GL_COLOR_BUFFER_BIT, GL_DEPTH_BUFFER_BIT},
        glClearColor (f32 (1 / 10)) (f32 (1 / 10)) (f32 (15 / 100)) (f32 1),
        glLoadIdentity,
        glTranslatef (f32 0) (f32 0) (f32 (- 3)),
        glRotatef (Finite 0) (f32 1) (f32 0) (f32 0),
        glRotatef (Finite (1 / 2)) (f32 0) (f32 1) (f32 0)] @ drawCube_calls
     @ [glfwSwapBuffers, glfwPollEvents]"
  by (simp add: main_def Let_def issue_def initial_state_def poll_events_def render_frame_def
      drawCube_def WIDTH_def HEIGHT_def f32_0 f32_half)

lemma clears_two_frames:
  "clears (effects (gl_run (calls (state_of (main True True [[], []]))) gl_initial))
      = [(Finite 0, Finite 0, Finite 0, Finite 0),
         (Finite (13421773 / 134217728), Finite (13421773 / 134217728),
          Finite (5033165 / 33554432), Finite 1)]"
proof -
  have e: "effects (gl_run cs gl_initial) = drawn_by cs gl_initial" for cs
    by (simp add: drawn_by_def gl_initial_def)
  have i: "clear_colour gl_initial = (Finite 0, Finite 0, Finite 0, Finite 0)"
    by (simp add: gl_initial_def)
  show ?thesis
    by (simp add: e i calls_two_frames setup_calls_def clears_drawn_Cons clears_drawn_drawCube
        clears_drawn_Nil clear_colour_gl drawCube_fields f32_tenth f32_15_hundredths f32_1
        del: gl.simps)
qed

text \<open>
  Claim C8, evaluated on the code. A frame clears the colour and depth buffers first, with
  the clear colour that is in force when the frame starts, and only then sets the clear
  colour to \<open>(0.1, 0.1, 0.15, 1)\<close> (as binary32 values) for the clears that follow. In a run
  of \<^verbatim>\<open>main\<close> the first frame is therefore cleared with the initial clear colour of the
  context, \<open>(0, 0, 0, 0)\<close>, and the second with the fixed colour.
\<close>

theorem first_clear_uses_initial_colour:
  "hd (drawn_by (calls_since s (render_frame s)) g)
      = Cleared {GL_COLOR_BUFFER_BIT, GL_DEPTH_BUFFER_BIT} (clear_colour g)
   \<and> clears (drawn_by (calls_since s (render_frame s)) g) = [clear_colour g]
   \<and> clear_colour (gl_run (calls_since s (render_frame s)) g)
      = (Finite (13421773 / 134217728), Finite (13421773 / 134217728),
         Finite (5033165 / 33554432), Finite 1)
   \<and> clears (effects (gl_run (calls (state_of (main True True [[], []]))) gl_initial))
      = [(Finite 0, Finite 0, Finite 0, Finite 0),
         (Finite (13421773 / 134217728), Finite (13421773 / 134217728),
          Finite (5033165 / 33554432), Finite 1)]"
proof -
  let ?pre = "[glClear {GL_COLOR_BUFFER_BIT, GL_DEPTH_BUFFER_BIT},
       glClearColor (f32 (1 / 10)) (f32 (1 / 10)) (f32 (15 / 100)) (f32 1),
       glLoadIdentity,
       glTranslatef (f32 0) (f32 0) (f32 (- 3)),
       glRotatef (angleX s) (f32 1) (f32 0) (f32 0),
       glRotatef (angleY s) (f32 0) (f32 1) (f32 0)]"
  have d: "drawn_by (calls_since s (render_frame s)) g
      = drawn_by ?pre g @ drawn_by drawCube_calls (gl_run ?pre g)
        @ drawn_by [glfwSwapBuffers] (gl_run drawCube_calls (gl_run ?pre g))"
    by (simp only: calls_since_render_frame drawn_by_append gl_run_append)
  have p: "drawn_by ?pre g = [Cleared {GL_COLOR_BUFFER_BIT, GL_DEPTH_BUFFER_BIT} (clear_colour g)]"
    by (cases "mode g") (simp_all add: drawn_by_def gl_eval)
  have c: "clear_colour (gl_run ?pre g)
      = (Finite (13421773 / 134217728), Finite (13421773 / 134217728),
         Finite (5033165 / 33554432), Finite 1)"
    by (cases "mode g") (simp_all add: gl_eval f32_tenth f32_15_hundredths)
  have 1: "hd (drawn_by (calls_since s (render_frame s)) g)
      = Cleared {GL_COLOR_BUFFER_BIT, GL_DEPTH_BUFFER_BIT} (clear_colour g)"
    by (simp only: d p) simp
  have 2: "clears (drawn_by (calls_since s (render_frame s)) g) = [clear_colour g]"
    by (simp only: d p clears_append drawCube_clears swap_fields) simp
  have 3: "clear_colour (gl_run (calls_since s (render_frame s)) g)
      = (Finite (13421773 / 134217728), Finite (13421773 / 134217728),
         Finite (5033165 / 33554432), Finite 1)"
    by (simp only: calls_since_render_frame gl_run_append swap_fields drawCube_fields c)
  have 4: "clears (effects (gl_run (calls (state_of (main True True [[], []]))) gl_initial))
      = [(Finite 0, Finite 0, Finite 0, Finite 0),
         (Finite (13421773 / 134217728), Finite (13421773 / 134217728),
          Finite (5033165 / 33554432), Finite 1)]"
    by (rule clears_two_frames)
  show ?thesis
    using 1 2 3 4 by blast
qed

end
